theory Spec2Isabelle
  imports Main
begin

section \<open>Errors and basic data\<close>

text \<open>
  Exceptions of the Python source are values. \<open>WinError n\<close> is a \<open>pywintypes.error\<close>
  whose \<open>winerror\<close> field is \<open>n\<close>; \<open>OSError n\<close> is an \<open>OSError\<close>/\<open>IOError\<close> with
  \<open>errno\<close> \<open>n\<close>.
\<close>

datatype error =
    AssertionError
  | IndexError
  | RuntimeError
  | UnsupportedFileSystemError
  | WinError nat
  | OSError nat
  | Exception string

text \<open>An extent is an inclusive pair \<open>(lcn_start, lcn_end)\<close> of cluster numbers.\<close>

type_synonym extent = "int \<times> int"

text \<open>A VCN/LCN record \<open>(next_vcn, lcn)\<close> as returned by the retrieval-pointers query.\<close>

type_synonym vcn_lcn = "int \<times> int"

definition extent_length :: "extent \<Rightarrow> int" where
  "extent_length x = snd x - fst x + 1"

definition sum_of_lengths :: "extent list \<Rightarrow> int" where
  "sum_of_lengths es = sum_list (map extent_length es)"

text \<open>The set of clusters covered by an extent list.\<close>

definition clusters :: "extent list \<Rightarrow> int set" where
  "clusters es = (\<Union>x \<in> set es. {fst x .. snd x})"

section \<open>\<open>logical_ranges_to_extents\<close>, bridging disabled\<close>

text \<open>
  The generator's first branch (\<open>not bridge_compressed\<close>): the loop over \<open>ranges\<close> with
  the running \<open>vcn_count\<close>. A failing \<open>assert this_vcn_span >= 0\<close> raises
  \<open>AssertionError\<close>; the callers collect the generator with \<open>list(...)\<close>, so the result
  is the whole list or the error.
\<close>

fun ranges_plain :: "int \<Rightarrow> vcn_lcn list \<Rightarrow> error + extent list" where
  "ranges_plain vcn_count [] = Inr []"
| "ranges_plain vcn_count ((vcn, lcn) # rest) =
     (if lcn < 0 then ranges_plain vcn rest
      else
        let this_vcn_span = vcn - vcn_count in
        if \<not> this_vcn_span \<ge> 0 then Inl AssertionError
        else (case ranges_plain vcn rest of
                Inl e \<Rightarrow> Inl e
              | Inr es \<Rightarrow> Inr ((lcn, lcn + this_vcn_span - 1) # es)))"

text \<open>
  The specification's right-hand side, written from its words: the sum of
  \<open>next_vcn\<^sub>i - prev_vcn\<^sub>i\<close> over the entries whose \<open>lcn\<close> is non-negative, where
  \<open>prev_vcn\<^sub>i\<close> is the \<open>next_vcn\<close> of the entry before (0 for the first entry).
\<close>

definition real_vcn_spans :: "vcn_lcn list \<Rightarrow> int" where
  "real_vcn_spans ranges =
     sum_list (map (\<lambda>(prev, (vcn, lcn)). vcn - prev)
                   (filter (\<lambda>(prev, (vcn, lcn)). lcn \<ge> 0)
                           (zip (0 # map fst ranges) ranges)))"

text \<open>The assertion of the source holds at every entry that maps to disk.\<close>

definition spans_nonneg :: "vcn_lcn list \<Rightarrow> bool" where
  "spans_nonneg ranges =
     list_all (\<lambda>(prev, (vcn, lcn)). lcn < 0 \<or> vcn - prev \<ge> 0)
              (zip (0 # map fst ranges) ranges)"

lemma extent_length_span [simp]: "extent_length (l, l + s - 1) = s"
  by (simp add: extent_length_def)

lemma ranges_plain_sum:
  "list_all (\<lambda>(prev, (vcn, lcn)). lcn < 0 \<or> vcn - prev \<ge> 0) (zip (c # map fst ranges) ranges)
   \<Longrightarrow> \<exists>es. ranges_plain c ranges = Inr es \<and>
          sum_list (map extent_length es) =
          sum_list (map (\<lambda>(prev, (vcn, lcn)). vcn - prev)
                   (filter (\<lambda>(prev, (vcn, lcn)). lcn \<ge> 0) (zip (c # map fst ranges) ranges)))"
proof (induction ranges arbitrary: c)
  case Nil
  then show ?case by simp
next
  case (Cons r rest)
  obtain vcn lcn where r: "r = (vcn, lcn)" by (cases r)
  from Cons.prems r have tl: "list_all (\<lambda>(prev, (vcn, lcn)). lcn < 0 \<or> vcn - prev \<ge> 0)
      (zip (vcn # map fst rest) rest)" by simp
  from Cons.IH [OF tl] obtain es where es: "ranges_plain vcn rest = Inr es"
    and sm: "sum_list (map extent_length es) =
          sum_list (map (\<lambda>(prev, (vcn, lcn)). vcn - prev)
                   (filter (\<lambda>(prev, (vcn, lcn)). lcn \<ge> 0) (zip (vcn # map fst rest) rest)))"
    by blast
  show ?case
  proof (cases "lcn < 0")
    case True
    with r es sm show ?thesis by simp
  next
    case False
    with Cons.prems r have "vcn - c \<ge> 0" by simp
    with False r es sm show ?thesis by simp
  qed
qed


section \<open>\<open>extents_a_minus_b\<close>\<close>

text \<open>
  The inner \<open>for b_begin, b_end in b_sorted\<close> loop for one extent of \<open>a\<close>, returning
  what it yields. \<open>break\<close> ends the recursion; \<open>continue\<close> and the assignments
  \<open>a_begin = b_end + 1\<close> go on with the rest of \<open>b_sorted\<close>. When \<open>b_sorted\<close> runs out
  the loop ends and nothing more is yielded.
\<close>

fun scan_b :: "int \<Rightarrow> int \<Rightarrow> extent list \<Rightarrow> extent list" where
  "scan_b a_begin a_end [] = []"
| "scan_b a_begin a_end ((b_begin, b_end) # bs) =
     (if b_begin > a_end then [(a_begin, a_end)]
      else if b_end < a_begin then scan_b a_begin a_end bs
      else if b_begin \<le> a_begin then
        (if b_end \<ge> a_end then [] else scan_b (b_end + 1) a_end bs)
      else (a_begin, b_begin - 1) #
        (if b_end \<ge> a_end then [] else scan_b (b_end + 1) a_end bs))"

text \<open>
  \<open>sorted(_, key=itemgetter(0))\<close> is a stable sort on the first component, as
  \<open>sort_key fst\<close> is. The result is the sequence of tuples the generator yields.
\<close>

definition extents_a_minus_b :: "extent list \<Rightarrow> extent list \<Rightarrow> extent list" where
  "extents_a_minus_b a b =
     (let a_sorted = sort_key fst a;
          b_sorted = sort_key fst b;
          b_is_empty = (b = [])
      in concat (map (\<lambda>(a_begin, a_end).
                        (if b_is_empty then [(a_begin, a_end)] else []) @
                        scan_b a_begin a_end b_sorted)
                     a_sorted))"

section \<open>\<open>split_extent\<close>\<close>

text \<open>
  \<open>while count > split_factor**(exponent + 1.3): exponent += 1\<close>. The test compares an
  integer with the float \<open>10**(exponent + 1.3)\<close>. It is modelled in exact arithmetic:
  for \<open>count > 0\<close>, \<open>count > 10\<^sup>k\<^sup>+\<^sup>1\<^sup>3\<^sup>/\<^sup>1\<^sup>0\<close> holds exactly when
  \<open>count\<^sup>1\<^sup>0 > 10\<^sup>1\<^sup>0\<^sup>k\<^sup>+\<^sup>1\<^sup>3\<close>; a \<open>count \<le> 0\<close> is never above a positive power.
  The thresholds are \<open>19.95..\<close>, \<open>199.5..\<close>, \<open>1995.2..\<close>, and so on.
\<close>

definition above_threshold :: "int \<Rightarrow> nat \<Rightarrow> bool" where
  "above_threshold count exponent = (count > 0 \<and> count ^ 10 > 10 ^ (10 * exponent + 13))"

lemma int_le_pow10: "int k \<le> 10 ^ k"
proof (induction k)
  case 0
  show ?case by simp
next
  case (Suc k)
  have one: "(1::int) \<le> 10 ^ k" by simp
  have "int (Suc k) = int k + 1" by simp
  moreover have "(10::int) ^ Suc k = 10 * 10 ^ k" by simp
  ultimately show ?case using Suc one by linarith
qed

lemma above_threshold_gt: "above_threshold count k \<Longrightarrow> int k < count"
proof (rule ccontr)
  assume a: "above_threshold count k" and n: "\<not> int k < count"
  from a have pos: "0 < count" and big: "count ^ 10 > 10 ^ (10 * k + 13)"
    by (simp_all add: above_threshold_def)
  from n pos have "count ^ 10 \<le> (int k) ^ 10" by (intro power_mono) simp_all
  also have "(int k) ^ 10 \<le> (10 ^ k) ^ 10" by (intro power_mono int_le_pow10) simp
  also have "\<dots> = (10::int) ^ (10 * k)" by (simp add: power_mult mult.commute)
  also have "\<dots> \<le> 10 ^ (10 * k + 13)" by (intro power_increasing) simp_all
  finally show False using big by simp
qed

function find_exponent :: "int \<Rightarrow> nat \<Rightarrow> nat" where
  "find_exponent count exponent =
     (if above_threshold count exponent then find_exponent count (exponent + 1) else exponent)"
  by pat_completeness auto
termination
  by (relation "measure (\<lambda>(count, exponent). nat count - exponent)")
     (auto dest: above_threshold_gt)

text \<open>
  \<open>range(start, stop, step)\<close> for a positive \<open>step\<close>; Python raises \<open>ValueError\<close> for
  step 0, which cannot happen for a power of ten.
\<close>

function py_range :: "int \<Rightarrow> int \<Rightarrow> int \<Rightarrow> int list" where
  "py_range x stop step =
     (if step \<le> 0 \<or> x \<ge> stop then [] else x # py_range (x + step) stop step)"
  by pat_completeness auto
termination
  by (relation "measure (\<lambda>(x, stop, step). nat (stop - x))") auto

definition split_extent :: "int \<Rightarrow> int \<Rightarrow> extent list" where
  "split_extent lcn_start lcn_end =
     (let split_factor = 10;
          count = lcn_end - lcn_start + 1;
          exponent = find_exponent count 0;
          extent_size = split_factor ^ exponent
      in map (\<lambda>x. (x, min (x + extent_size - 1) lcn_end))
             (py_range lcn_start (lcn_end + 1) extent_size))"


section \<open>\<open>logical_ranges_to_extents\<close>, bridging enabled\<close>

text \<open>
  The inner \<open>while\<close> loop that advances \<open>merge_index\<close> by two while the pattern
  "real run, hole, real run within 16 clusters" goes on. Every index read is below
  \<open>last_record = len(ranges)\<close> by the loop's own guard.
\<close>

function merge_scan :: "vcn_lcn list \<Rightarrow> int \<Rightarrow> nat \<Rightarrow> nat" where
  "merge_scan ranges lcn merge_index =
     (if lcn \<ge> 0 \<and>
         merge_index + 2 < length ranges \<and>
         snd (ranges ! (merge_index + 1)) < 0 \<and>
         snd (ranges ! (merge_index + 2)) \<ge> 0 \<and>
         snd (ranges ! (merge_index + 2)) - snd (ranges ! merge_index) \<le> 16 \<and>
         snd (ranges ! (merge_index + 2)) - snd (ranges ! merge_index) > 0
      then merge_scan ranges lcn (merge_index + 2)
      else merge_index)"
  by pat_completeness auto
termination
  by (relation "measure (\<lambda>(ranges, lcn, merge_index). length ranges - merge_index)") auto

declare merge_scan.simps [simp del]

lemma merge_scan_ge: "merge_index \<le> merge_scan ranges lcn merge_index"
proof (induction ranges lcn merge_index rule: merge_scan.induct)
  case (1 ranges lcn merge_index)
  let ?go = "lcn \<ge> 0 \<and>
         merge_index + 2 < length ranges \<and>
         snd (ranges ! (merge_index + 1)) < 0 \<and>
         snd (ranges ! (merge_index + 2)) \<ge> 0 \<and>
         snd (ranges ! (merge_index + 2)) - snd (ranges ! merge_index) \<le> 16 \<and>
         snd (ranges ! (merge_index + 2)) - snd (ranges ! merge_index) > 0"
  have unfold: "merge_scan ranges lcn merge_index =
      (if ?go then merge_scan ranges lcn (merge_index + 2) else merge_index)"
    by (rule merge_scan.simps)
  show ?case
  proof (cases ?go)
    case True
    then have "merge_scan ranges lcn merge_index = merge_scan ranges lcn (merge_index + 2)"
      by (subst unfold) (rule if_P)
    moreover from "1.IH" True
    have "merge_index + 2 \<le> merge_scan ranges lcn (merge_index + 2)"
      by blast
    ultimately show ?thesis by linarith
  next
    case False
    then have "merge_scan ranges lcn merge_index = merge_index"
      by (subst unfold) (rule if_not_P)
    then show ?thesis by simp
  qed
qed

text \<open>
  The outer \<open>while index < last_record\<close> loop. In the merged case
  \<open>merge_index \<ge> index + 2\<close>, so \<open>ranges[merge_index - 1]\<close> is an entry of the list.
\<close>

function ranges_bridged :: "vcn_lcn list \<Rightarrow> int \<Rightarrow> nat \<Rightarrow> error + extent list" where
  "ranges_bridged ranges vcn_count index =
     (if index < length ranges then
        (let vcn = fst (ranges ! index); lcn = snd (ranges ! index) in
         if lcn < 0 then ranges_bridged ranges vcn (index + 1)
         else
           let merge_index = merge_scan ranges lcn index in
           if merge_index = index then
             (let this_vcn_span = vcn - vcn_count in
              if \<not> this_vcn_span \<ge> 0 then Inl AssertionError
              else (case ranges_bridged ranges vcn (index + 1) of
                      Inl e \<Rightarrow> Inl e
                    | Inr es \<Rightarrow> Inr ((lcn, lcn + this_vcn_span - 1) # es)))
           else
             (let last_vcn_span = fst (ranges ! merge_index) - fst (ranges ! (merge_index - 1)) in
              if \<not> last_vcn_span \<ge> 0 then Inl AssertionError
              else (case ranges_bridged ranges (fst (ranges ! merge_index)) (merge_index + 1) of
                      Inl e \<Rightarrow> Inl e
                    | Inr es \<Rightarrow>
                        Inr ((lcn, snd (ranges ! merge_index) + last_vcn_span - 1) # es))))
      else Inr [])"
  by pat_completeness auto
termination
proof (relation "measure (\<lambda>(ranges, vcn_count, index). length ranges - index)", goal_cases)
  case 1
  show ?case by simp
next
  case (2 ranges vcn_count index)
  then show ?case by simp
next
  case (3 ranges vcn_count index)
  then show ?case by simp
next
  case (4 ranges vcn_count index x xa xb)
  have "index \<le> merge_scan ranges xa index" by (rule merge_scan_ge)
  with 4 show ?case by simp
qed

declare ranges_bridged.simps [simp del]

definition logical_ranges_to_extents :: "vcn_lcn list \<Rightarrow> bool \<Rightarrow> error + extent list" where
  "logical_ranges_to_extents ranges bridge_compressed =
     (if \<not> bridge_compressed then ranges_plain 0 ranges
      else ranges_bridged ranges 0 0)"


section \<open>Properties of the extent algebra\<close>

subsection \<open>Sum of the emitted lengths\<close>

text \<open>
  C5. With bridging disabled, for a list of \<open>(next_vcn, lcn)\<close> ranges starting at VCN 0
  whose entries pass the source's assertion (no real run has a negative VCN span), the
  generator runs to its end and the sum of the lengths of the emitted extents equals the
  sum of the VCN spans \<open>next_vcn\<^sub>i - prev_vcn\<^sub>i\<close> over exactly the entries with a
  non-negative \<open>lcn\<close>.
\<close>

theorem logical_ranges_to_extents_sum_of_lengths:
  assumes "spans_nonneg ranges"
  shows "\<exists>es. logical_ranges_to_extents ranges False = Inr es \<and>
              sum_of_lengths es = real_vcn_spans ranges"
proof -
  from assms have "list_all (\<lambda>(prev, (vcn, lcn)). lcn < 0 \<or> vcn - prev \<ge> 0)
      (zip (0 # map fst ranges) ranges)"
    by (simp add: spans_nonneg_def)
  from ranges_plain_sum [OF this] show ?thesis
    by (simp add: logical_ranges_to_extents_def sum_of_lengths_def real_vcn_spans_def)
qed

theorem logical_ranges_to_extents_sum_of_lengths_witness:
  "spans_nonneg [(10, 100), (20, -1), (25, 200)] \<and>
   (\<exists>es. logical_ranges_to_extents [(10, 100), (20, -1), (25, 200)] False = Inr es \<and>
         sum_of_lengths es = real_vcn_spans [(10, 100), (20, -1), (25, 200)])"
proof -
  have h: "spans_nonneg [(10, 100), (20, -1), (25, 200)]"
    by (simp add: spans_nonneg_def)
  from logical_ranges_to_extents_sum_of_lengths [OF h] h show ?thesis by blast
qed

text \<open>
  When the assertion fails at some real run, the generator raises instead of reaching
  its end.
\<close>

lemma ranges_plain_assertion:
  "\<not> list_all (\<lambda>(prev, (vcn, lcn)). lcn < 0 \<or> vcn - prev \<ge> 0) (zip (c # map fst ranges) ranges)
   \<Longrightarrow> ranges_plain c ranges = Inl AssertionError"
proof (induction ranges arbitrary: c)
  case Nil
  then show ?case by simp
next
  case (Cons r rest)
  obtain vcn lcn where r: "r = (vcn, lcn)" by (cases r)
  show ?case
  proof (cases "lcn < 0 \<or> vcn - c \<ge> 0")
    case True
    with Cons.prems r have "\<not> list_all (\<lambda>(prev, (vcn, lcn)). lcn < 0 \<or> vcn - prev \<ge> 0)
      (zip (vcn # map fst rest) rest)" by auto
    from Cons.IH [OF this] True r show ?thesis by auto
  next
    case False
    with r show ?thesis by simp
  qed
qed

subsection \<open>The difference of two extent lists\<close>

text \<open>
  C3. The clusters yielded by \<open>extents_a_minus_b a b\<close> together with the clusters of \<open>a\<close>
  that lie in \<open>b\<close> should be exactly the clusters of \<open>a\<close>. The code loses the part of an
  extent of \<open>a\<close> that lies beyond the last extent of \<open>b\<close>: when the inner loop runs out of
  \<open>b_sorted\<close> without a \<open>break\<close>, the remainder \<open>(a_begin, a_end)\<close> is never yielded. For
  \<open>a = [(10, 20)]\<close> and \<open>b = [(0, 5)]\<close> nothing is yielded at all, although no cluster of
  \<open>a\<close> lies in \<open>b\<close>.
\<close>

theorem extents_a_minus_b_drops_remainder:
  "extents_a_minus_b [(10, 20)] [(0, 5)] = [] \<and>
   clusters (extents_a_minus_b [(10, 20)] [(0, 5)]) \<union> (clusters [(10, 20)] \<inter> clusters [(0, 5)])
     \<noteq> clusters [(10, 20)]"
proof -
  have e: "extents_a_minus_b [(10, 20)] [(0, 5)] = []"
    by (simp add: extents_a_minus_b_def)
  have "(10::int) \<in> clusters [(10, 20)]" by (simp add: clusters_def)
  moreover have "(10::int) \<notin> clusters [] \<union> (clusters [(10, 20)] \<inter> clusters [(0, 5)])"
    by (simp add: clusters_def)
  ultimately show ?thesis using e by auto
qed


subsection \<open>Splitting an extent\<close>

declare py_range.simps [simp del]

lemma py_range_Nil: "step \<le> 0 \<or> x \<ge> stop \<Longrightarrow> py_range x stop step = []"
  by (subst py_range.simps) simp

lemma py_range_Cons:
  "0 < step \<Longrightarrow> x < stop \<Longrightarrow> py_range x stop step = x # py_range (x + step) stop step"
  by (subst py_range.simps) simp

text \<open>
  The body of \<open>split_extent\<close> after the exponent is fixed: the \<open>for x in range(...)\<close> loop
  started at \<open>x\<close>, with its yields.
\<close>

definition pieces :: "int \<Rightarrow> int \<Rightarrow> int \<Rightarrow> extent list" where
  "pieces x lcn_end extent_size =
     map (\<lambda>x. (x, min (x + extent_size - 1) lcn_end)) (py_range x (lcn_end + 1) extent_size)"

lemma pieces_Nil: "x > lcn_end \<Longrightarrow> pieces x lcn_end sz = []"
  by (simp add: pieces_def py_range_Nil)

lemma pieces_Cons:
  "0 < sz \<Longrightarrow> x \<le> lcn_end \<Longrightarrow>
   pieces x lcn_end sz = (x, min (x + sz - 1) lcn_end) # pieces (x + sz) lcn_end sz"
  by (simp add: pieces_def py_range_Cons)

lemma pieces_induct [consumes 1, case_names Nil Cons]:
  assumes sz: "0 < (sz::int)"
    and nil: "\<And>x. x > e \<Longrightarrow> P x"
    and cons: "\<And>x. x \<le> e \<Longrightarrow> P (x + sz) \<Longrightarrow> P x"
  shows "P x"
proof (induction "nat (e + 1 - x)" arbitrary: x rule: less_induct)
  case less
  show ?case
  proof (cases "x > e")
    case True
    then show ?thesis by (rule nil)
  next
    case False
    then have le: "x \<le> e" by simp
    with sz have "nat (e + 1 - (x + sz)) < nat (e + 1 - x)" by simp
    then have "P (x + sz)" by (rule less)
    with le show ?thesis by (rule cons)
  qed
qed

lemma pieces_clusters:
  assumes sz: "0 < sz"
  shows "clusters (pieces x e sz) = {x..e}"
  using sz
proof (induction x rule: pieces_induct [where e = e])
  case (Nil x)
  then show ?case by (simp add: pieces_Nil clusters_def)
next
  case (Cons x)
  have "clusters (pieces x e sz) = {x .. min (x + sz - 1) e} \<union> clusters (pieces (x + sz) e sz)"
    using Cons.hyps sz by (simp add: pieces_Cons clusters_def)
  also have "\<dots> = {x .. min (x + sz - 1) e} \<union> {x + sz .. e}"
    using Cons.IH by simp
  also have "\<dots> = {x..e}" using Cons.hyps sz by auto
  finally show ?case .
qed

lemma pieces_fst_ge:
  assumes sz: "0 < sz"
  shows "p \<in> set (pieces x e sz) \<Longrightarrow> x \<le> fst p"
  using sz
proof (induction x rule: pieces_induct [where e = e])
  case (Nil x)
  then show ?case by (simp add: pieces_Nil)
next
  case (Cons x)
  then show ?case using sz by (auto simp: pieces_Cons)
qed

lemma pieces_sorted:
  assumes sz: "0 < sz"
  shows "sorted_wrt (\<lambda>p q. snd p < fst q) (pieces x e sz)"
  using sz
proof (induction x rule: pieces_induct [where e = e])
  case (Nil x)
  then show ?case by (simp add: pieces_Nil)
next
  case (Cons x)
  have "\<forall>q \<in> set (pieces (x + sz) e sz). min (x + sz - 1) e < fst q"
    using pieces_fst_ge [OF sz, of _ "x + sz" e] by fastforce
  with Cons sz show ?case by (simp add: pieces_Cons)
qed

lemma pieces_lengths:
  assumes sz: "0 < sz"
  shows "p \<in> set (pieces x e sz) \<Longrightarrow> 1 \<le> extent_length p \<and> extent_length p \<le> sz"
  using sz
proof (induction x rule: pieces_induct [where e = e])
  case (Nil x)
  then show ?case by (simp add: pieces_Nil)
next
  case (Cons x)
  then show ?case using sz by (auto simp: pieces_Cons extent_length_def)
qed

lemma pieces_butlast:
  assumes sz: "0 < sz"
  shows "p \<in> set (butlast (pieces x e sz)) \<Longrightarrow> extent_length p = sz"
  using sz
proof (induction x rule: pieces_induct [where e = e])
  case (Nil x)
  then show ?case by (simp add: pieces_Nil)
next
  case (Cons x)
  show ?case
  proof (cases "x + sz \<le> e")
    case True
    then have ne: "pieces (x + sz) e sz \<noteq> []" using sz by (simp add: pieces_Cons)
    from Cons.hyps sz have "pieces x e sz = (x, min (x + sz - 1) e) # pieces (x + sz) e sz"
      by (rule pieces_Cons [rotated])
    with ne have "butlast (pieces x e sz) = (x, min (x + sz - 1) e) # butlast (pieces (x + sz) e sz)"
      by simp
    with Cons.prems have "p = (x, min (x + sz - 1) e) \<or> p \<in> set (butlast (pieces (x + sz) e sz))"
      by simp
    then show ?thesis
    proof
      assume "p = (x, min (x + sz - 1) e)"
      with True show ?thesis by (simp add: extent_length_def)
    next
      assume "p \<in> set (butlast (pieces (x + sz) e sz))"
      then show ?thesis by (rule Cons.IH)
    qed
  next
    case False
    then have "pieces (x + sz) e sz = []" by (simp add: pieces_Nil)
    with Cons sz show ?thesis by (simp add: pieces_Cons)
  qed
qed

lemma pieces_length:
  assumes sz: "0 < sz"
  shows "x \<le> e + 1 \<Longrightarrow> int (length (pieces x e sz)) = (e - x + sz) div sz"
  using sz
proof (induction x rule: pieces_induct [where e = e])
  case (Nil x)
  then have "x = e + 1" by simp
  moreover have "(sz - 1) div sz = 0" using sz by (simp add: div_pos_pos_trivial)
  ultimately show ?case by (simp add: pieces_Nil)
next
  case (Cons x)
  show ?case
  proof (cases "x + sz \<le> e + 1")
    case True
    with Cons have "int (length (pieces (x + sz) e sz)) = (e - (x + sz) + sz) div sz" by simp
    then have "int (length (pieces x e sz)) = (e - x) div sz + 1"
      using Cons sz by (simp add: pieces_Cons)
    also have "\<dots> = (e - x + sz) div sz"
    proof -
      from sz have "sz \<noteq> 0" by simp
      from div_add_self2 [OF this, of "e - x"] show ?thesis by simp
    qed
    finally show ?thesis .
  next
    case False
    then have "pieces (x + sz) e sz = []" by (simp add: pieces_Nil)
    then have one: "int (length (pieces x e sz)) = 1" using Cons sz by (simp add: pieces_Cons)
    moreover have "(e - x) div sz = 0"
      using False Cons sz by (simp add: div_pos_pos_trivial)
    moreover from sz have "sz \<noteq> 0" by simp
    from div_add_self2 [OF this, of "e - x"]
    have "(e - x + sz) div sz = (e - x) div sz + 1" by simp
    ultimately have "(e - x + sz) div sz = 1" by simp
    with one show ?thesis by simp
  qed
qed


declare find_exponent.simps [simp del]

lemma find_exponent_not_above: "\<not> above_threshold count (find_exponent count j)"
proof (induction count j rule: find_exponent.induct)
  case (1 count exponent)
  show ?case
  proof (cases "above_threshold count exponent")
    case True
    then have "find_exponent count exponent = find_exponent count (exponent + 1)"
      by (subst find_exponent.simps) simp
    with 1 True show ?thesis by simp
  next
    case False
    then have "find_exponent count exponent = exponent"
      by (subst find_exponent.simps) simp
    with False show ?thesis by simp
  qed
qed

lemma find_exponent_prev:
  "find_exponent count j = j \<or> above_threshold count (find_exponent count j - 1)"
proof (induction count j rule: find_exponent.induct)
  case (1 count exponent)
  show ?case
  proof (cases "above_threshold count exponent")
    case True
    then have eq: "find_exponent count exponent = find_exponent count (exponent + 1)"
      by (subst find_exponent.simps) simp
    from 1 True have "find_exponent count (exponent + 1) = exponent + 1 \<or>
        above_threshold count (find_exponent count (exponent + 1) - 1)" by simp
    then show ?thesis
    proof
      assume "find_exponent count (exponent + 1) = exponent + 1"
      with eq True show ?thesis by simp
    next
      assume "above_threshold count (find_exponent count (exponent + 1) - 1)"
      with eq show ?thesis by simp
    qed
  next
    case False
    then have "find_exponent count exponent = exponent"
      by (subst find_exponent.simps) simp
    then show ?thesis by simp
  qed
qed

lemma not_above_0_le_19: "\<not> above_threshold count 0 \<Longrightarrow> count \<le> 19"
proof (rule ccontr)
  assume a: "\<not> above_threshold count 0" and "\<not> count \<le> 19"
  then have c: "20 \<le> count" by simp
  then have "(20::int) ^ 10 \<le> count ^ 10" by (intro power_mono) simp_all
  moreover have "(10::int) ^ 13 < 20 ^ 10" by simp
  ultimately have "count ^ 10 > 10 ^ 13" by linarith
  with c a show False by (simp add: above_threshold_def)
qed

lemma above_imp_gt_pow10: "above_threshold count k \<Longrightarrow> 10 ^ (k + 1) < count"
proof -
  assume a: "above_threshold count k"
  then have pos: "0 < count" and big: "count ^ 10 > 10 ^ (10 * k + 13)"
    by (simp_all add: above_threshold_def)
  have "((10::int) ^ (k + 1)) ^ 10 = 10 ^ (10 * k + 10)"
    by (simp only: power_mult [symmetric]) (simp add: algebra_simps)
  also have "\<dots> \<le> 10 ^ (10 * k + 13)" by (intro power_increasing) simp_all
  finally have lt: "((10::int) ^ (k + 1)) ^ 10 < count ^ 10" using big by linarith
  from pos have "0 \<le> count" by simp
  with lt show ?thesis by (rule power_less_imp_less_base)
qed

lemma extent_size_less_count:
  assumes "2 \<le> count"
  shows "10 ^ find_exponent count 0 < count"
proof (cases "find_exponent count 0 = 0")
  case True
  with assms show ?thesis by simp
next
  case False
  with find_exponent_prev [of count 0]
  have "above_threshold count (find_exponent count 0 - 1)" by simp
  from above_imp_gt_pow10 [OF this] False show ?thesis by simp
qed

lemma ceil_div_bound:
  assumes c: "1 \<le> (count::int)" and k: "1 \<le> k"
  shows "(count - 1 + 10 ^ k) div 10 ^ k \<le> (count + 9) div 10"
proof -
  obtain j where kj: "k = Suc j" using k by (cases k) simp_all
  define m :: int where "m = 10 ^ j"
  have m: "1 \<le> m" by (simp add: m_def)
  have pk: "(10::int) ^ k = 10 * m" by (simp add: kj m_def)
  have "(count - 1 + 10 * m) div (10 * m) = ((count - 1 + 10 * m) div 10) div m"
    using m by (simp add: zdiv_zmult2_eq)
  also have "(count - 1 + 10 * m) div 10 = (count - 1) div 10 + m" by simp
  also have "((count - 1) div 10 + m) div m = (count - 1) div 10 div m + 1"
  proof -
    from m have "m \<noteq> 0" by simp
    from div_add_self2 [OF this, of "(count - 1) div 10"] show ?thesis by simp
  qed
  also have "(count - 1) div 10 div m \<le> (count - 1) div 10"
  proof -
    have "0 \<le> (count - 1) div 10" using c by simp
    then show ?thesis using m by (metis div_0 int_div_le_self linorder_not_less nle_le)
  qed
  also have "(count - 1) div 10 + 1 = (count + 9) div 10" by simp
  finally show ?thesis by (simp add: pk)
qed



lemma split_extent_pieces:
  "split_extent s e = pieces s e (10 ^ find_exponent (e - s + 1) 0)"
  by (simp add: split_extent_def pieces_def Let_def)

text \<open>
  C6, as the claim states it, fails: the last sub-extent is cut at \<open>lcn_end\<close> by
  \<open>min(x + extent_size - 1, lcn_end)\<close>, so its length need not be a power of ten.
  \<open>split_extent(0, 24)\<close> yields \<open>(0, 9), (10, 19), (20, 24)\<close>, and the last has length 5.
\<close>

theorem split_extent_power_of_ten_counterexample:
  "\<not> (\<forall>p \<in> set (split_extent 0 24). \<exists>k::nat. extent_length p = 10 ^ k)"
proof
  assume a: "\<forall>p \<in> set (split_extent 0 24). \<exists>k::nat. extent_length p = 10 ^ k"
  have "split_extent 0 24 = [(0, 9), (10, 19), (20, 24)]" by code_simp
  with a obtain k :: nat where "extent_length (20, 24) = 10 ^ k" by auto
  then have k: "(10::int) ^ k = 5" by (simp add: extent_length_def)
  show False
  proof (cases k)
    case 0
    with k show False by simp
  next
    case (Suc j)
    have "(1::int) \<le> 10 ^ j" by simp
    with k Suc show False by simp
  qed
qed

text \<open>
  C6, amended. For \<open>lcn_start \<le> lcn_end\<close> the sub-extents yielded by \<open>split_extent\<close>
  cover exactly the clusters \<open>lcn_start .. lcn_end\<close>; they are in ascending order and
  pairwise non-overlapping (each ends before the next begins); each is non-empty and no
  longer than \<open>10\<^sup>k\<close> for the exponent \<open>k\<close> the loop chose; every sub-extent but the last
  has length exactly \<open>10\<^sup>k\<close>; and their number is at most
  \<open>\<lceil>(lcn_end - lcn_start + 1) / 10\<rceil> + 17\<close>.
\<close>

theorem split_extent_covers:
  assumes le: "lcn_start \<le> lcn_end"
  shows "clusters (split_extent lcn_start lcn_end) = {lcn_start .. lcn_end} \<and>
         sorted_wrt (\<lambda>p q. snd p < fst q) (split_extent lcn_start lcn_end) \<and>
         (\<forall>p \<in> set (split_extent lcn_start lcn_end).
             1 \<le> extent_length p \<and>
             extent_length p \<le> 10 ^ find_exponent (lcn_end - lcn_start + 1) 0) \<and>
         (\<forall>p \<in> set (butlast (split_extent lcn_start lcn_end)).
             extent_length p = 10 ^ find_exponent (lcn_end - lcn_start + 1) 0) \<and>
         int (length (split_extent lcn_start lcn_end))
           \<le> (lcn_end - lcn_start + 1 + 9) div 10 + 17"
proof -
  define count where "count = lcn_end - lcn_start + 1"
  define k where "k = find_exponent count 0"
  define sz :: int where "sz = 10 ^ k"
  have sz: "0 < sz" by (simp add: sz_def)
  have count: "1 \<le> count" using le by (simp add: count_def)
  have eq: "split_extent lcn_start lcn_end = pieces lcn_start lcn_end sz"
    by (simp add: split_extent_pieces sz_def k_def count_def)
  have cover: "clusters (pieces lcn_start lcn_end sz) = {lcn_start .. lcn_end}"
    using sz by (rule pieces_clusters)
  have sorted: "sorted_wrt (\<lambda>p q. snd p < fst q) (pieces lcn_start lcn_end sz)"
    using sz by (rule pieces_sorted)
  have lens: "\<forall>p \<in> set (pieces lcn_start lcn_end sz). 1 \<le> extent_length p \<and> extent_length p \<le> sz"
    using pieces_lengths [OF sz] by blast
  have full: "\<forall>p \<in> set (butlast (pieces lcn_start lcn_end sz)). extent_length p = sz"
    using pieces_butlast [OF sz] by blast
  have "int (length (pieces lcn_start lcn_end sz)) = (lcn_end - lcn_start + sz) div sz"
    using le by (intro pieces_length [OF sz]) simp
  then have len: "int (length (pieces lcn_start lcn_end sz)) = (count - 1 + sz) div sz"
    by (simp add: count_def)
  have bound: "(count - 1 + sz) div sz \<le> (count + 9) div 10 + 17"
  proof (cases "k = 0")
    case True
    then have "sz = 1" by (simp add: sz_def)
    moreover have "\<not> above_threshold count 0"
      using find_exponent_not_above [of count 0] True by (simp add: k_def)
    then have "count \<le> 19" by (rule not_above_0_le_19)
    ultimately show ?thesis using count by simp
  next
    case False
    then have "1 \<le> k" by simp
    from ceil_div_bound [OF count this] show ?thesis by (simp add: sz_def)
  qed
  from cover sorted lens full len bound show ?thesis
    unfolding eq by (simp add: sz_def k_def count_def)
qed

theorem split_extent_covers_witness:
  "(0::int) \<le> 24 \<and> clusters (split_extent 0 24) = {0 .. 24} \<and>
   sorted_wrt (\<lambda>p q. snd p < fst q) (split_extent 0 24) \<and>
   int (length (split_extent 0 24)) \<le> 20"
  using split_extent_covers [of 0 24] by simp


section \<open>Effects: operating-system calls, exceptions and the call trace\<close>

text \<open>
  A computation takes the state and returns an error (a raised exception) or a value,
  with the new state.
\<close>

type_synonym ('s, 'a) io = "'s \<Rightarrow> (error + 'a) \<times> 's"

definition io_return :: "'a \<Rightarrow> ('s, 'a) io" where
  "io_return x s = (Inr x, s)"

definition io_raise :: "error \<Rightarrow> ('s, 'a) io" where
  "io_raise e s = (Inl e, s)"

definition io_bind :: "('s, 'a) io \<Rightarrow> ('a \<Rightarrow> ('s, 'b) io) \<Rightarrow> ('s, 'b) io" where
  "io_bind m f s = (case m s of (Inl e, s') \<Rightarrow> (Inl e, s') | (Inr x, s') \<Rightarrow> f x s')"

text \<open>\<open>try: m except: h\<close>, the handler receiving the exception.\<close>

definition io_catch :: "('s, 'a) io \<Rightarrow> (error \<Rightarrow> ('s, 'a) io) \<Rightarrow> ('s, 'a) io" where
  "io_catch m h s = (case m s of (Inl e, s') \<Rightarrow> h e s' | (Inr x, s') \<Rightarrow> (Inr x, s'))"

definition io_assert :: "bool \<Rightarrow> ('s, unit) io" where
  "io_assert b = (if b then io_return () else io_raise AssertionError)"

type_synonym handle = nat

datatype open_kind = OpenRead | OpenReadWrite | OpenVolume | CreateAlways

text \<open>
  The primitives of the operating system and of the Python library that the code calls,
  with the arguments of the call.
\<close>

datatype prim =
    P_lstat string
  | P_FindFilesW string
  | P_path_getsize string
  | P_open string string
  | P_chmod string nat
  | P_write nat nat
  | P_flush nat
  | P_fsync nat
  | P_rename string string
  | P_random_string nat
  | P_GetVolumeInformation string
  | P_GetDiskFreeSpace string
  | P_GetDriveType string
  | P_CreateFile string open_kind
  | P_CloseHandle handle
  | P_DeleteFile string
  | P_GetFileAttributesW string
  | P_SetFileAttributesW string nat
  | P_GetFileSize handle
  | P_GetRetrievalPointers handle nat
  | P_GetVolumeBitmap handle int
  | P_MoveFile handle handle int int int
  | P_WriteFile handle nat
  | P_FlushFileBuffers handle
  | P_LockFile handle int int
  | P_SetFilePointer handle
  | P_SetEndOfFile handle
  | P_Sleep int
  | P_log_examining int int

text \<open>
  One entry of the trace: the call, and \<open>None\<close> when it raised or \<open>Some n\<close> when it
  returned; \<open>n\<close> is the handle or file object returned by \<open>CreateFile\<close> and \<open>open\<close>,
  the number of bytes written by \<open>WriteFile\<close>, and 0 for the other primitives.
\<close>

datatype event = Call prim "nat option"

text \<open>
  The state threaded through the program: the state of the operating system, of a type
  the program knows nothing about, and the trace of the calls made so far. The trace is
  not part of the source; it records the calls so that properties can speak about them.
\<close>

record 's world =
  os_state :: 's
  trace :: "event list"

definition os_call :: "prim \<Rightarrow> ('a \<Rightarrow> nat) \<Rightarrow> ('s, 'a) io \<Rightarrow> ('s world, 'a) io" where
  "os_call p val op w =
     (case op (os_state w) of
        (r, s') \<Rightarrow>
          (r, \<lparr>os_state = s',
               trace = trace w @ [Call p (case r of Inl e \<Rightarrow> None | Inr v \<Rightarrow> Some (val v))]\<rparr>))"

section \<open>FileUtilities: the file-system interface\<close>

text \<open>Python file objects are identified by a number.\<close>

type_synonym fileobj = nat

record 's fs =
  fs_os_name :: string
  fs_lstat_blocks :: "string \<Rightarrow> ('s, int) io"
  fs_FindFilesW :: "string \<Rightarrow> ('s, (int \<times> int) list) io"
  fs_path_getsize :: "string \<Rightarrow> ('s, int) io"
  fs_open :: "string \<Rightarrow> string \<Rightarrow> ('s, fileobj) io"
  fs_chmod :: "string \<Rightarrow> nat \<Rightarrow> ('s, unit) io"
  fs_write :: "fileobj \<Rightarrow> nat \<Rightarrow> ('s, unit) io"
  fs_flush :: "fileobj \<Rightarrow> ('s, unit) io"
  fs_fsync :: "fileobj \<Rightarrow> ('s, unit) io"
  fs_rename :: "string \<Rightarrow> string \<Rightarrow> ('s, unit) io"
  fs_random_string :: "nat \<Rightarrow> 's \<Rightarrow> string \<times> 's"
  fs_path_split :: "string \<Rightarrow> string \<times> string"
  fs_path_join :: "string \<Rightarrow> string \<Rightarrow> string"
  fs_exists :: "'s \<Rightarrow> string \<Rightarrow> bool"

definition EACCES :: nat where "EACCES = 13"
definition ENOENT :: nat where "ENOENT = 2"

text \<open>The backslash, \<open>os.sep\<close> on Windows.\<close>

definition backslash :: char where
  "backslash = CHR 0x5C"

text \<open>\<open>str.split(sep)\<close> for a one-character separator.\<close>

fun split_on :: "char \<Rightarrow> string \<Rightarrow> string list" where
  "split_on c [] = [[]]"
| "split_on c (x # xs) =
     (if x = c then [] # split_on c xs
      else (case split_on c xs of [] \<Rightarrow> [[x]] | w # ws \<Rightarrow> (x # w) # ws))"

definition startswith :: "string \<Rightarrow> string \<Rightarrow> bool" where
  "startswith s p = (take (length p) s = p)"

definition extended_path :: "string \<Rightarrow> string \<Rightarrow> string" where
  "extended_path os_name path =
     (if ''nt'' = os_name \<and> ''Sysnative'' \<notin> set (split_on backslash path) then
        (if startswith path [backslash, backslash, CHR ''?''] then path
         else if startswith path [backslash, backslash] then
           [backslash, backslash, CHR ''?'', backslash] @ ''unc'' @ [backslash] @ drop 2 path
         else [backslash, backslash, CHR ''?'', backslash] @ path)
      else path)"

definition extended_path_undo :: "string \<Rightarrow> string \<Rightarrow> string" where
  "extended_path_undo os_name path =
     (if ''nt'' = os_name then
        (if startswith path ([backslash, backslash, CHR ''?'', backslash] @ ''unc'') then
           [backslash] @ drop 7 path
         else if startswith path [backslash, backslash, CHR ''?''] then drop 4 path
         else path)
      else path)"

definition getsize :: "'s fs \<Rightarrow> string \<Rightarrow> ('s world, int) io" where
  "getsize os path =
     (if ''posix'' = fs_os_name os then
        io_catch
          (io_bind (os_call (P_lstat path) (\<lambda>_. 0) (fs_lstat_blocks os path))
             (\<lambda>st_blocks. io_return (st_blocks * 512)))
          (\<lambda>e. if e = OSError EACCES then io_return 0 else io_raise e)
      else if ''nt'' = fs_os_name os then
        io_bind
          (io_catch
             (os_call (P_FindFilesW (extended_path (fs_os_name os) path)) (\<lambda>_. 0)
                (fs_FindFilesW os (extended_path (fs_os_name os) path)))
             (\<lambda>e. if e = WinError 3 then io_raise (OSError ENOENT) else io_raise e))
          (\<lambda>finddata.
             case finddata of
               [] \<Rightarrow> os_call (P_path_getsize path) (\<lambda>_. 0) (fs_path_getsize os path)
             | (high, low) # _ \<Rightarrow> io_return (high * (0xffffffff + 1) + low))
      else os_call (P_path_getsize path) (\<lambda>_. 0) (fs_path_getsize os path))"


section \<open>\<open>wipe_contents\<close>: the inner function \<open>wipe_write\<close>\<close>

text \<open>\<open>while size > 0: f.write(blanks); size -= 4096\<close>, with \<open>blanks\<close> 4096 zero bytes;
  \<open>sz\<close> is the variable \<open>size\<close> of the source.\<close>

function write_blanks :: "'s fs \<Rightarrow> fileobj \<Rightarrow> int \<Rightarrow> ('s world, unit) io" where
  "write_blanks os f sz w =
     (if sz > 0 then
        (case os_call (P_write f 4096) (\<lambda>_. 0) (fs_write os f 4096) w of
           (Inl e, w') \<Rightarrow> (Inl e, w')
         | (Inr _, w') \<Rightarrow> write_blanks os f (sz - 4096) w')
      else (Inr (), w))"
  by pat_completeness auto
termination
  by (relation "measure (\<lambda>(os, f, sz, w). nat sz)") auto

declare write_blanks.simps [simp del]

text \<open>The mode \<open>0o200\<close> (owner write only) is 128.\<close>

definition wipe_write :: "'s fs \<Rightarrow> string \<Rightarrow> ('s world, fileobj) io" where
  "wipe_write os path =
     io_bind (getsize os path) (\<lambda>sz.
     io_bind
       (io_catch (os_call (P_open path ''wb'') id (fs_open os path ''wb''))
          (\<lambda>e. if e = OSError EACCES then
                 io_bind (os_call (P_chmod path 128) (\<lambda>_. 0) (fs_chmod os path 128))
                   (\<lambda>_. os_call (P_open path ''wb'') id (fs_open os path ''wb''))
               else io_raise e))
       (\<lambda>f.
     io_bind (write_blanks os f sz) (\<lambda>_.
     io_bind (os_call (P_flush f) (\<lambda>_. 0) (fs_flush os f)) (\<lambda>_.
     io_bind (os_call (P_fsync f) (\<lambda>_. 0) (fs_fsync os f)) (\<lambda>_.
     io_return f)))))"

text \<open>The number of bytes that the successful \<open>f.write\<close> calls of a trace have written.\<close>

fun written_by :: "event \<Rightarrow> nat" where
  "written_by (Call (P_write f n) (Some k)) = n"
| "written_by _ = 0"

definition bytes_written :: "event list \<Rightarrow> nat" where
  "bytes_written tr = sum_list (map written_by tr)"

section \<open>\<open>wipe_name\<close>\<close>

fun is_OSError :: "error \<Rightarrow> bool" where
  "is_OSError (OSError n) = True"
| "is_OSError _ = False"

definition random_string :: "'s fs \<Rightarrow> nat \<Rightarrow> ('s world, string) io" where
  "random_string os len =
     os_call (P_random_string len) (\<lambda>_. 0)
       (\<lambda>s. case fs_random_string os len s of (name, s') \<Rightarrow> (Inr name, s'))"

definition rename :: "'s fs \<Rightarrow> string \<Rightarrow> string \<Rightarrow> ('s world, unit) io" where
  "rename os src dst = os_call (P_rename src dst) (\<lambda>_. 0) (fs_rename os src dst)"

text \<open>
  The first \<open>while True\<close> loop: rename to a long name. \<open>except OSError\<close> catches only
  an \<open>OSError\<close>; after more than 100 failures the original path is kept.
\<close>

function long_rename ::
  "'s fs \<Rightarrow> string \<Rightarrow> string \<Rightarrow> nat \<Rightarrow> nat \<Rightarrow> ('s world, string) io" where
  "long_rename os pathname1 head maxlen i w =
     (case random_string os maxlen w of
        (Inl e, w1) \<Rightarrow> (Inl e, w1)
      | (Inr name, w1) \<Rightarrow>
          (case rename os pathname1 (fs_path_join os head name) w1 of
             (Inr _, w2) \<Rightarrow> (Inr (fs_path_join os head name), w2)
           | (Inl e, w2) \<Rightarrow>
               if is_OSError e then
                 (let maxlen' = (if maxlen > 10 then maxlen - 10 else maxlen);
                      i' = i + 1
                  in if i' > 100 then (Inr pathname1, w2)
                     else long_rename os pathname1 head maxlen' i' w2)
               else (Inl e, w2)))"
  by pat_completeness auto
termination
  by (relation "measure (\<lambda>(os, pathname1, head, maxlen, i, w). 101 - i)") auto

text \<open>The second loop: rename to a short name of length \<open>i + 1\<close>; a bare \<open>except\<close>.\<close>

function short_rename ::
  "'s fs \<Rightarrow> string \<Rightarrow> string \<Rightarrow> nat \<Rightarrow> ('s world, string) io" where
  "short_rename os pathname2 head i w =
     (case random_string os (i + 1) w of
        (Inl e, w1) \<Rightarrow>
          (let i' = i + 1
           in if i' > 100 then (Inr pathname2, w1)
              else short_rename os pathname2 head i' w1)
      | (Inr name, w1) \<Rightarrow>
          (case rename os pathname2 (fs_path_join os head name) w1 of
             (Inr _, w2) \<Rightarrow> (Inr (fs_path_join os head name), w2)
           | (Inl e, w2) \<Rightarrow>
               (let i' = i + 1
                in if i' > 100 then (Inr pathname2, w2)
                   else short_rename os pathname2 head i' w2)))"
  by pat_completeness auto
termination
  by (relation "measure (\<lambda>(os, pathname2, head, i, w). 101 - i)") auto

declare long_rename.simps [simp del]
declare short_rename.simps [simp del]

definition wipe_name :: "'s fs \<Rightarrow> string \<Rightarrow> ('s world, string) io" where
  "wipe_name os pathname1 =
     (let head = fst (fs_path_split os pathname1)
      in io_bind (long_rename os pathname1 head 226 0)
           (\<lambda>pathname2. short_rename os pathname2 head 0))"

section \<open>Properties of \<open>wipe_write\<close> and \<open>wipe_name\<close>\<close>

lemma io_bind_Inr:
  assumes "io_bind m k w = (Inr y, w')"
  obtains x w1 where "m w = (Inr x, w1)" and "k x w1 = (Inr y, w')"
  using assms by (auto simp: io_bind_def split: prod.splits sum.splits)

lemma os_call_trace:
  assumes "os_call p val op w = (r, w')"
  shows "trace w' = trace w @ [Call p (case r of Inl e \<Rightarrow> None | Inr v \<Rightarrow> Some (val v))]"
  using assms by (auto simp: os_call_def split: prod.splits)

lemma bytes_written_append [simp]:
  "bytes_written (a @ b) = bytes_written a + bytes_written b"
  by (simp add: bytes_written_def)

lemma bytes_written_Nil [simp]: "bytes_written [] = 0"
  by (simp add: bytes_written_def)

lemma bytes_written_replicate:
  "bytes_written (replicate n (Call (P_write f k) (Some j))) = n * k"
  by (induction n) (simp_all add: bytes_written_def)

lemma write_blanks_trace:
  "write_blanks os f sz w = (Inr u, w') \<Longrightarrow>
   \<exists>n. trace w' = trace w @ replicate n (Call (P_write f 4096) (Some 0)) \<and>
       int n = (max sz 0 + 4095) div 4096"
proof (induction os f sz w rule: write_blanks.induct)
  case (1 os f sz w)
  show ?case
  proof (cases "sz > 0")
    case False
    with "1.prems" have "w' = w" by (simp add: write_blanks.simps)
    moreover from False have "(max sz 0 + 4095) div 4096 = 0" by simp
    ultimately show ?thesis by simp
  next
    case True
    with "1.prems" obtain x w1 where
      call: "os_call (P_write f 4096) (\<lambda>_. 0) (fs_write os f 4096) w = (Inr x, w1)"
      and rest: "write_blanks os f (sz - 4096) w1 = (Inr u, w')"
      by (auto simp: write_blanks.simps [of os f sz w] split: prod.splits sum.splits)
    from os_call_trace [OF call]
    have t1: "trace w1 = trace w @ [Call (P_write f 4096) (Some 0)]" by simp
    from "1.IH" [OF True call [symmetric] refl rest] obtain n where
      tn: "trace w' = trace w1 @ replicate n (Call (P_write f 4096) (Some 0))"
      and n: "int n = (max (sz - 4096) 0 + 4095) div 4096" by blast
    have "trace w' = trace w @ replicate (Suc n) (Call (P_write f 4096) (Some 0))"
      using t1 tn by (simp add: replicate_app_Cons_same)
    moreover have "int (Suc n) = (max sz 0 + 4095) div 4096"
    proof (cases "sz \<ge> 4096")
      case True
      then have "(max sz 0 + 4095) div 4096 = (sz - 4096 + 4095) div 4096 + 1" by simp
      with n True show ?thesis by simp
    next
      case False
      with \<open>sz > 0\<close> have "(max sz 0 + 4095) div 4096 = 1" by simp
      moreover from False have "(max (sz - 4096) 0 + 4095) div 4096 = 0" by simp
      ultimately show ?thesis using n by simp
    qed
    ultimately show ?thesis by blast
  qed
qed

lemma getsize_trace:
  "getsize os path w = (r, w') \<Longrightarrow> \<exists>ev. trace w' = trace w @ ev \<and> bytes_written ev = 0"
  by (auto simp: getsize_def io_bind_def io_catch_def io_return_def io_raise_def
        os_call_def bytes_written_def
      split: prod.splits sum.splits if_splits list.splits)

lemma open_for_write_trace:
  "io_catch (os_call (P_open path ''wb'') id (fs_open os path ''wb''))
          (\<lambda>e. if e = OSError EACCES then
                 io_bind (os_call (P_chmod path 128) (\<lambda>_. 0) (fs_chmod os path 128))
                   (\<lambda>_. os_call (P_open path ''wb'') id (fs_open os path ''wb''))
               else io_raise e) w = (r, w') \<Longrightarrow>
   \<exists>ev. trace w' = trace w @ ev \<and> bytes_written ev = 0"
  by (auto simp: io_bind_def io_catch_def io_return_def io_raise_def
        os_call_def bytes_written_def
      split: prod.splits sum.splits if_splits)

text \<open>
  C4, amended. When \<open>wipe_write\<close> returns the file object \<open>f\<close>, the calls it made are:
  those of \<open>getsize\<close> and \<open>open\<close>, then the writes, then \<open>f.flush()\<close> and \<open>os.fsync\<close> as
  the last two; and the bytes written before the flush are whole 4 KiB blocks,
  \<open>4096 * \<lceil>size / 4096\<rceil>\<close> in total for \<open>size = getsize(path)\<close>: the size rounded up to
  the next multiple of 4096 (nothing for a size of 0 or less).
\<close>

theorem wipe_write_bytes:
  assumes "wipe_write os path w = (Inr f, w')"
  shows "\<exists>sz w1 ev. getsize os path w = (Inr sz, w1) \<and>
           trace w' = trace w @ ev @ [Call (P_flush f) (Some 0), Call (P_fsync f) (Some 0)] \<and>
           int (bytes_written ev) = 4096 * ((max sz 0 + 4095) div 4096)"
proof -
  from assms obtain sz w1 where gs: "getsize os path w = (Inr sz, w1)"
    and r1: "io_bind
       (io_catch (os_call (P_open path ''wb'') id (fs_open os path ''wb''))
          (\<lambda>e. if e = OSError EACCES then
                 io_bind (os_call (P_chmod path 128) (\<lambda>_. 0) (fs_chmod os path 128))
                   (\<lambda>_. os_call (P_open path ''wb'') id (fs_open os path ''wb''))
               else io_raise e))
       (\<lambda>f.
     io_bind (write_blanks os f sz) (\<lambda>_.
     io_bind (os_call (P_flush f) (\<lambda>_. 0) (fs_flush os f)) (\<lambda>_.
     io_bind (os_call (P_fsync f) (\<lambda>_. 0) (fs_fsync os f)) (\<lambda>_.
     io_return f)))) w1 = (Inr f, w')"
    unfolding wipe_write_def by (rule io_bind_Inr)
  from r1 obtain g w2 where
    op: "io_catch (os_call (P_open path ''wb'') id (fs_open os path ''wb''))
          (\<lambda>e. if e = OSError EACCES then
                 io_bind (os_call (P_chmod path 128) (\<lambda>_. 0) (fs_chmod os path 128))
                   (\<lambda>_. os_call (P_open path ''wb'') id (fs_open os path ''wb''))
               else io_raise e) w1 = (Inr g, w2)"
    and r2: "io_bind (write_blanks os g sz) (\<lambda>_.
     io_bind (os_call (P_flush g) (\<lambda>_. 0) (fs_flush os g)) (\<lambda>_.
     io_bind (os_call (P_fsync g) (\<lambda>_. 0) (fs_fsync os g)) (\<lambda>_.
     io_return g))) w2 = (Inr f, w')"
    by (rule io_bind_Inr)
  from r2 obtain u w3 where wb: "write_blanks os g sz w2 = (Inr u, w3)"
    and r3: "io_bind (os_call (P_flush g) (\<lambda>_. 0) (fs_flush os g)) (\<lambda>_.
     io_bind (os_call (P_fsync g) (\<lambda>_. 0) (fs_fsync os g)) (\<lambda>_.
     io_return g)) w3 = (Inr f, w')"
    by (rule io_bind_Inr)
  from r3 obtain u2 w4 where fl: "os_call (P_flush g) (\<lambda>_. 0) (fs_flush os g) w3 = (Inr u2, w4)"
    and r4: "io_bind (os_call (P_fsync g) (\<lambda>_. 0) (fs_fsync os g)) (\<lambda>_.
     io_return g) w4 = (Inr f, w')"
    by (rule io_bind_Inr)
  from r4 obtain u3 w5 where fs: "os_call (P_fsync g) (\<lambda>_. 0) (fs_fsync os g) w4 = (Inr u3, w5)"
    and r5: "io_return g w5 = (Inr f, w')"
    by (rule io_bind_Inr)
  from r5 have g: "g = f" and w5: "w5 = w'" by (simp_all add: io_return_def)
  from getsize_trace [OF gs] obtain e1 where
    t1: "trace w1 = trace w @ e1" and b1: "bytes_written e1 = 0" by blast
  from open_for_write_trace [OF op] obtain e2 where
    t2: "trace w2 = trace w1 @ e2" and b2: "bytes_written e2 = 0" by blast
  from write_blanks_trace [OF wb] obtain n where
    t3: "trace w3 = trace w2 @ replicate n (Call (P_write g 4096) (Some 0))"
    and n: "int n = (max sz 0 + 4095) div 4096" by blast
  from os_call_trace [OF fl] have t4: "trace w4 = trace w3 @ [Call (P_flush g) (Some 0)]"
    by simp
  from os_call_trace [OF fs] have t5: "trace w5 = trace w4 @ [Call (P_fsync g) (Some 0)]"
    by simp
  let ?ev = "e1 @ e2 @ replicate n (Call (P_write f 4096) (Some 0))"
  have "trace w' = trace w @ ?ev @ [Call (P_flush f) (Some 0), Call (P_fsync f) (Some 0)]"
    using t1 t2 t3 t4 t5 g w5 by simp
  moreover have "int (bytes_written ?ev) = 4096 * ((max sz 0 + 4095) div 4096)"
    using b1 b2 n by (simp add: bytes_written_replicate)
  ultimately show ?thesis using gs by blast
qed

text \<open>
  What \<open>os.rename\<close> does to the set of existing paths: nothing when it raises; when it
  returns, the source is gone and the destination exists. Drawing a random string
  leaves the file system alone.
\<close>

definition rename_model :: "'s fs \<Rightarrow> bool" where
  "rename_model os =
     ((\<forall>src dst s.
         case fs_rename os src dst s of
           (Inl e, s') \<Rightarrow> fs_exists os s' = fs_exists os s
         | (Inr u, s') \<Rightarrow> fs_exists os s' = (fs_exists os s)(src := False, dst := True)) \<and>
      (\<forall>n s. fs_exists os (snd (fs_random_string os n s)) = fs_exists os s))"

definition exists_in :: "'s fs \<Rightarrow> 's world \<Rightarrow> string \<Rightarrow> bool" where
  "exists_in os w = fs_exists os (os_state w)"

lemma rename_Inr:
  "rename_model os \<Longrightarrow> rename os src dst w = (Inr u, w') \<Longrightarrow>
   exists_in os w' = (exists_in os w)(src := False, dst := True)"
  unfolding rename_model_def rename_def os_call_def exists_in_def
  by (erule conjE, erule_tac x = src in allE, erule_tac x = dst in allE,
      erule_tac x = "os_state w" in allE)
     (auto split: prod.splits sum.splits)

lemma rename_Inl:
  "rename_model os \<Longrightarrow> rename os src dst w = (Inl e, w') \<Longrightarrow>
   exists_in os w' = exists_in os w"
  unfolding rename_model_def rename_def os_call_def exists_in_def
  by (erule conjE, erule_tac x = src in allE, erule_tac x = dst in allE,
      erule_tac x = "os_state w" in allE)
     (auto split: prod.splits sum.splits)

lemma random_string_exists:
  "rename_model os \<Longrightarrow> random_string os n w = (r, w') \<Longrightarrow>
   exists_in os w' = exists_in os w"
  unfolding rename_model_def random_string_def os_call_def exists_in_def
  by (erule conjE, erule_tac x = n in allE, erule_tac x = "os_state w" in allE)
     (auto split: prod.splits sum.splits)

lemma long_rename_exists:
  "rename_model os \<Longrightarrow> long_rename os p hd0 maxlen i w = (Inr p2, w') \<Longrightarrow>
     (p2 = p \<and> exists_in os w' = exists_in os w) \<or>
     exists_in os w' = (exists_in os w)(p := False, p2 := True)"
proof (induction os p hd0 maxlen i w rule: long_rename.induct)
  case (1 os pathname1 head maxlen i w)
  note m = "1.prems" (1)
  note run = "1.prems" (2)
  obtain r1 w1 where rs: "random_string os maxlen w = (r1, w1)" by (cases "random_string os maxlen w")
  from random_string_exists [OF m rs] have e1: "exists_in os w1 = exists_in os w" .
  from run rs obtain name where r1: "r1 = Inr name"
    by (cases r1) (auto simp: long_rename.simps [of os pathname1 head maxlen i w])
  obtain r2 w2 where rn: "rename os pathname1 (fs_path_join os head name) w1 = (r2, w2)"
    by (cases "rename os pathname1 (fs_path_join os head name) w1")
  show ?case
  proof (cases r2)
    case (Inr u)
    with run rs r1 rn have "p2 = fs_path_join os head name" and "w' = w2"
      by (auto simp: long_rename.simps [of os pathname1 head maxlen i w])
    with rename_Inr [OF m rn [unfolded Inr]] e1 show ?thesis by simp
  next
    case (Inl e)
    from rename_Inl [OF m rn [unfolded Inl]] e1 have e2: "exists_in os w2 = exists_in os w" by simp
    from run rs r1 rn Inl have ose: "is_OSError e"
      by (auto simp: long_rename.simps [of os pathname1 head maxlen i w] split: if_splits)
    show ?thesis
    proof (cases "i + 1 > 100")
      case True
      with run rs r1 rn Inl ose have "p2 = pathname1" and "w' = w2"
        by (auto simp: long_rename.simps [of os pathname1 head maxlen i w] Let_def)
      with e2 show ?thesis by simp
    next
      case False
      with run rs r1 rn Inl ose
      have rec: "long_rename os pathname1 head (if maxlen > 10 then maxlen - 10 else maxlen) (i + 1) w2
          = (Inr p2, w')"
        by (auto simp: long_rename.simps [of os pathname1 head maxlen i w] Let_def)
      from "1.IH" [OF rs [symmetric] r1 rn [symmetric] Inl ose refl refl False m rec] e2
      show ?thesis by simp
    qed
  qed
qed


lemma short_rename_exists:
  "rename_model os \<Longrightarrow> short_rename os p hd0 i w = (Inr p3, w') \<Longrightarrow>
     (p3 = p \<and> exists_in os w' = exists_in os w) \<or>
     exists_in os w' = (exists_in os w)(p := False, p3 := True)"
proof (induction os p hd0 i w rule: short_rename.induct)
  case (1 os pathname2 head i w)
  note m = "1.prems" (1)
  note run = "1.prems" (2)
  obtain r1 w1 where rs: "random_string os (i + 1) w = (r1, w1)"
    by (cases "random_string os (i + 1) w")
  from random_string_exists [OF m rs] have e1: "exists_in os w1 = exists_in os w" .
  show ?case
  proof (cases r1)
    case (Inl e)
    show ?thesis
    proof (cases "i + 1 > 100")
      case True
      with run rs Inl have "p3 = pathname2" and "w' = w1"
        by (auto simp: short_rename.simps [of os pathname2 head i w] Let_def)
      with e1 show ?thesis by simp
    next
      case False
      with run rs Inl have rec: "short_rename os pathname2 head (i + 1) w1 = (Inr p3, w')"
        by (auto simp: short_rename.simps [of os pathname2 head i w] Let_def)
      from "1.IH" (1) [OF rs [symmetric] Inl refl False m rec] e1 show ?thesis by simp
    qed
  next
    case (Inr name)
    obtain r2 w2 where rn: "rename os pathname2 (fs_path_join os head name) w1 = (r2, w2)"
      by (cases "rename os pathname2 (fs_path_join os head name) w1")
    show ?thesis
    proof (cases r2)
      case u: (Inr u)
      with run rs Inr rn have "p3 = fs_path_join os head name" and "w' = w2"
        by (auto simp: short_rename.simps [of os pathname2 head i w])
      with rename_Inr [OF m rn [unfolded u]] e1 show ?thesis by simp
    next
      case e: (Inl e)
      from rename_Inl [OF m rn [unfolded e]] e1
      have e2: "exists_in os w2 = exists_in os w" by simp
      show ?thesis
      proof (cases "i + 1 > 100")
        case True
        with run rs Inr rn e have "p3 = pathname2" and "w' = w2"
          by (auto simp: short_rename.simps [of os pathname2 head i w] Let_def)
        with e2 show ?thesis by simp
      next
        case False
        with run rs Inr rn e
        have rec: "short_rename os pathname2 head (i + 1) w2 = (Inr p3, w')"
          by (auto simp: short_rename.simps [of os pathname2 head i w] Let_def)
        from "1.IH" (2) [OF rs [symmetric] Inr rn [symmetric] e refl False m rec] e2
        show ?thesis by simp
      qed
    qed
  qed
qed

lemma wipe_name_exists:
  assumes m: "rename_model os"
    and ex: "exists_in os w p"
    and run: "wipe_name os p w = (Inr p', w')"
  shows "exists_in os w' p' \<and> (p' \<noteq> p \<longrightarrow> \<not> exists_in os w' p)"
proof -
  let ?head = "fst (fs_path_split os p)"
  from run obtain p2 w1 where l: "long_rename os p ?head 226 0 w = (Inr p2, w1)"
    and s: "short_rename os p2 ?head 0 w1 = (Inr p', w')"
    unfolding wipe_name_def Let_def by (rule io_bind_Inr)
  from long_rename_exists [OF m l]
  have A: "(p2 = p \<and> exists_in os w1 = exists_in os w) \<or>
     exists_in os w1 = (exists_in os w)(p := False, p2 := True)" .
  from short_rename_exists [OF m s]
  have B: "(p' = p2 \<and> exists_in os w' = exists_in os w1) \<or>
     exists_in os w' = (exists_in os w1)(p2 := False, p' := True)" .
  from A ex have E1: "exists_in os w1 q =
      (if q = p2 then True else if q = p then False else exists_in os w q)" for q
    by (auto simp: fun_upd_def)
  from B E1 have E2: "exists_in os w' q =
      (if q = p' then True else if q = p2 then False else exists_in os w1 q)" for q
    by (auto simp: fun_upd_def)
  have "exists_in os w' p'" by (simp add: E2)
  moreover have "\<not> exists_in os w' p" if "p' \<noteq> p"
    using that by (simp add: E2 E1)
  ultimately show ?thesis by blast
qed

text \<open>When every rename raises an \<open>OSError\<close>, both loops give up and keep the path.\<close>

definition rename_always_fails :: "'s fs \<Rightarrow> bool" where
  "rename_always_fails os = (\<forall>src dst s. \<exists>n s'. fs_rename os src dst s = (Inl (OSError n), s'))"

lemma rename_fails:
  "rename_always_fails os \<Longrightarrow> \<exists>n w'. rename os src dst w = (Inl (OSError n), w')"
  unfolding rename_always_fails_def rename_def os_call_def
  by (erule_tac x = src in allE, erule_tac x = dst in allE, erule_tac x = "os_state w" in allE)
     auto

lemma random_string_returns: "\<exists>name w'. random_string os n w = (Inr name, w')"
  by (auto simp: random_string_def os_call_def split: prod.splits)

lemma long_rename_gives_up:
  "rename_always_fails os \<Longrightarrow> \<exists>w'. long_rename os p hd0 maxlen i w = (Inr p, w')"
proof (induction os p hd0 maxlen i w rule: long_rename.induct)
  case (1 os pathname1 head maxlen i w)
  note f = "1.prems"
  obtain name w1 where rs: "random_string os maxlen w = (Inr name, w1)"
    using random_string_returns by blast
  obtain n w2 where rn: "rename os pathname1 (fs_path_join os head name) w1 = (Inl (OSError n), w2)"
    using rename_fails [OF f] by blast
  show ?case
  proof (cases "i + 1 > 100")
    case True
    with rs rn show ?thesis
      by (simp add: long_rename.simps [of os pathname1 head maxlen i w] Let_def)
  next
    case False
    from "1.IH" [OF rs [symmetric] refl rn [symmetric] refl _ refl refl False f]
    obtain w' where "long_rename os pathname1 head (if maxlen > 10 then maxlen - 10 else maxlen)
        (i + 1) w2 = (Inr pathname1, w')" by auto
    with False rs rn show ?thesis
      by (simp add: long_rename.simps [of os pathname1 head maxlen i w] Let_def)
  qed
qed

lemma short_rename_gives_up:
  "rename_always_fails os \<Longrightarrow> \<exists>w'. short_rename os p hd0 i w = (Inr p, w')"
proof (induction os p hd0 i w rule: short_rename.induct)
  case (1 os pathname2 head i w)
  note f = "1.prems"
  obtain name w1 where rs: "random_string os (i + 1) w = (Inr name, w1)"
    using random_string_returns by blast
  obtain n w2 where rn: "rename os pathname2 (fs_path_join os head name) w1 = (Inl (OSError n), w2)"
    using rename_fails [OF f] by blast
  show ?case
  proof (cases "i + 1 > 100")
    case True
    with rs rn show ?thesis
      by (simp add: short_rename.simps [of os pathname2 head i w] Let_def)
  next
    case False
    from "1.IH" (2) [OF rs [symmetric] refl rn [symmetric] refl refl False f]
    obtain w' where "short_rename os pathname2 head (i + 1) w2 = (Inr pathname2, w')" by auto
    with False rs rn show ?thesis
      by (simp add: short_rename.simps [of os pathname2 head i w] Let_def)
  qed
qed

lemma wipe_name_gives_up:
  assumes "rename_always_fails os"
  shows "\<exists>w'. wipe_name os p w = (Inr p, w')"
proof -
  let ?head = "fst (fs_path_split os p)"
  from long_rename_gives_up [OF assms] obtain w1 where
    "long_rename os p ?head 226 0 w = (Inr p, w1)" by blast
  moreover from short_rename_gives_up [OF assms] obtain w2 where
    "short_rename os p ?head 0 w1 = (Inr p, w2)" by blast
  ultimately show ?thesis by (simp add: wipe_name_def io_bind_def Let_def)
qed


text \<open>
  C9, amended. On a file system where \<open>os.rename\<close> behaves as in \<open>rename_model\<close>, for an
  existing path \<open>p\<close>: after \<open>wipe_name(p)\<close> returns \<open>p'\<close>, the path \<open>p'\<close> exists, and if
  \<open>p'\<close> differs from \<open>p\<close> then \<open>p\<close> no longer exists. (When every rename fails, both
  loops give up after 101 attempts and \<open>p'\<close> is \<open>p\<close> itself: \<open>wipe_name_gives_up\<close>.)
\<close>

theorem wipe_name_renamed:
  assumes "rename_model os"
    and "exists_in os w p"
    and "wipe_name os p w = (Inr p', w')"
  shows "exists_in os w' p' \<and> (p' \<noteq> p \<longrightarrow> \<not> exists_in os w' p)"
  using assms by (rule wipe_name_exists)

text \<open>
  A small file system to run the code on: the state is the list of existing paths,
  every path is \<open>''d''\<close> joined with a name, random strings are made of \<open>x\<close>, a file
  has one 512-byte block, and \<open>rename\<close> fails when told to or when the source is missing.
\<close>

definition sim_fs :: "bool \<Rightarrow> (string list) fs" where
  "sim_fs rename_fails =
     \<lparr>fs_os_name = ''posix'',
      fs_lstat_blocks = (\<lambda>path s. (Inr 1, s)),
      fs_FindFilesW = (\<lambda>path s. (Inr [], s)),
      fs_path_getsize = (\<lambda>path s. (Inr 0, s)),
      fs_open = (\<lambda>path mode s. (Inr 3, s)),
      fs_chmod = (\<lambda>path mode s. (Inr (), s)),
      fs_write = (\<lambda>f n s. (Inr (), s)),
      fs_flush = (\<lambda>f s. (Inr (), s)),
      fs_fsync = (\<lambda>f s. (Inr (), s)),
      fs_rename = (\<lambda>src dst s.
         if rename_fails \<or> src \<notin> set s then (Inl (OSError 2), s)
         else (Inr (), dst # removeAll src s)),
      fs_random_string = (\<lambda>n s. (replicate n CHR ''x'', s)),
      fs_path_split = (\<lambda>path. (''d'', drop 2 path)),
      fs_path_join = (\<lambda>h name. h @ ''/'' @ name),
      fs_exists = (\<lambda>s path. path \<in> set s)\<rparr>"

definition sim_w0 :: "(string list) world" where
  "sim_w0 = \<lparr>os_state = [''d/a''], trace = []\<rparr>"

lemma sim_fs_rename_model: "rename_model (sim_fs b)"
  by (auto simp: rename_model_def sim_fs_def fun_upd_def)

lemma sim_fs_always_fails: "rename_always_fails (sim_fs True)"
  by (simp add: rename_always_fails_def sim_fs_def)

lemma sim_w0_exists: "exists_in (sim_fs b) sim_w0 ''d/a''"
  by (simp add: exists_in_def sim_fs_def sim_w0_def)

theorem wipe_name_renamed_witness:
  "rename_model (sim_fs False) \<and> exists_in (sim_fs False) sim_w0 ''d/a'' \<and>
   fst (wipe_name (sim_fs False) ''d/a'' sim_w0) = Inr ''d/x'' \<and>
   exists_in (sim_fs False) (snd (wipe_name (sim_fs False) ''d/a'' sim_w0)) ''d/x'' \<and>
   \<not> exists_in (sim_fs False) (snd (wipe_name (sim_fs False) ''d/a'' sim_w0)) ''d/a''"
proof -
  have r: "fst (wipe_name (sim_fs False) ''d/a'' sim_w0) = Inr ''d/x''"
    by (simp add: wipe_name_def io_bind_def long_rename.simps short_rename.simps
        random_string_def rename_def os_call_def sim_fs_def sim_w0_def Let_def)
  then have run: "wipe_name (sim_fs False) ''d/a'' sim_w0 =
      (Inr ''d/x'', snd (wipe_name (sim_fs False) ''d/a'' sim_w0))"
    by (simp add: prod_eq_iff)
  from wipe_name_renamed [OF sim_fs_rename_model sim_w0_exists run] r
    sim_fs_rename_model [of False] sim_w0_exists [of False]
  show ?thesis by simp
qed

text \<open>
  C9, as the claim states it, fails: when every rename raises \<open>OSError\<close>, \<open>wipe_name\<close>
  returns the original path, which still exists.
\<close>

theorem wipe_name_keeps_path_counterexample:
  "fst (wipe_name (sim_fs True) ''d/a'' sim_w0) = Inr ''d/a'' \<and>
   exists_in (sim_fs True) sim_w0 ''d/a'' \<and>
   exists_in (sim_fs True) (snd (wipe_name (sim_fs True) ''d/a'' sim_w0)) ''d/a''"
proof -
  from wipe_name_gives_up [OF sim_fs_always_fails] obtain w' where
    run: "wipe_name (sim_fs True) ''d/a'' sim_w0 = (Inr ''d/a'', w')" by blast
  from wipe_name_exists [OF sim_fs_rename_model sim_w0_exists run]
  have "exists_in (sim_fs True) w' ''d/a''" by simp
  with run sim_w0_exists [of True] show ?thesis by simp
qed

theorem wipe_write_bytes_witness:
  "fst (wipe_write (sim_fs False) ''d/a'' sim_w0) = Inr 3 \<and>
   (\<exists>sz w1 ev. getsize (sim_fs False) ''d/a'' sim_w0 = (Inr sz, w1) \<and>
      trace (snd (wipe_write (sim_fs False) ''d/a'' sim_w0)) =
        trace sim_w0 @ ev @ [Call (P_flush 3) (Some 0), Call (P_fsync 3) (Some 0)] \<and>
      int (bytes_written ev) = 4096 * ((max sz 0 + 4095) div 4096))"
proof -
  have r: "fst (wipe_write (sim_fs False) ''d/a'' sim_w0) = Inr 3"
    by (simp add: wipe_write_def getsize_def io_bind_def io_catch_def io_return_def
        write_blanks.simps os_call_def sim_fs_def sim_w0_def)
  then have run: "wipe_write (sim_fs False) ''d/a'' sim_w0 =
      (Inr 3, snd (wipe_write (sim_fs False) ''d/a'' sim_w0))"
    by (simp add: prod_eq_iff)
  from wipe_write_bytes [OF run] r show ?thesis by simp
qed

text \<open>
  C4, as the claim states it, fails: the loop writes whole blocks while \<open>size > 0\<close>, so
  a file of 512 bytes gets 4096 bytes written, not 512.
\<close>

theorem wipe_write_rounds_up_counterexample:
  "fst (getsize (sim_fs False) ''d/a'' sim_w0) = Inr 512 \<and>
   fst (wipe_write (sim_fs False) ''d/a'' sim_w0) = Inr 3 \<and>
   bytes_written (trace (snd (wipe_write (sim_fs False) ''d/a'' sim_w0))) = 4096"
  by (simp add: wipe_write_def getsize_def io_bind_def io_catch_def io_return_def
      write_blanks.simps os_call_def sim_fs_def sim_w0_def bytes_written_def)


unbundle bit_operations_syntax

section \<open>WindowsWipe: the volume bitmap\<close>

text \<open>Python indexing of a sequence: a negative index counts from the end.\<close>

definition py_index :: "'a list \<Rightarrow> int \<Rightarrow> error + 'a" where
  "py_index xs i =
     (if 0 \<le> i \<and> i < int (length xs) then Inr (xs ! nat i)
      else if i < 0 \<and> - int (length xs) \<le> i then Inr (xs ! nat (int (length xs) + i))
      else Inl IndexError)"

text \<open>The bitmap is a byte string; indexing it gives an integer from 0 to 255.\<close>

definition check_mapped_bit :: "int list \<Rightarrow> int \<Rightarrow> error + bool" where
  "check_mapped_bit volume_bitmap lcn =
     (case py_index volume_bitmap (lcn div 8) of
        Inl e \<Rightarrow> Inl e
      | Inr mapped_bit \<Rightarrow>
          let bit_location = lcn mod 8;
              mapped_bit = (if bit_location > 0 then drop_bit (nat bit_location) mapped_bit
                            else mapped_bit);
              mapped_bit = mapped_bit AND 1
          in Inr (mapped_bit > 0))"

text \<open>
  The inner loop of \<open>check_extents\<close> over the clusters of one extent. The state of the
  loop is \<open>(count_free, count_allocated, allocated_extents)\<close>; \<open>allocated_extents\<close> is
  \<open>None\<close> when the caller passed no list.
\<close>

type_synonym tally = "int \<times> int \<times> extent list option"

fun check_clusters :: "int list \<Rightarrow> int list \<Rightarrow> tally \<Rightarrow> error + tally" where
  "check_clusters volume_bitmap [] t = Inr t"
| "check_clusters volume_bitmap (cluster # rest) (count_free, count_allocated, allocated_extents) =
     (case check_mapped_bit volume_bitmap cluster of
        Inl e \<Rightarrow> Inl e
      | Inr True \<Rightarrow>
          check_clusters volume_bitmap rest
            (count_free, count_allocated + 1,
             (case allocated_extents of
                None \<Rightarrow> None
              | Some l \<Rightarrow> Some (l @ [(cluster, cluster)])))
      | Inr False \<Rightarrow>
          check_clusters volume_bitmap rest (count_free + 1, count_allocated, allocated_extents))"

fun check_extents_loop :: "extent list \<Rightarrow> int list \<Rightarrow> tally \<Rightarrow> error + tally" where
  "check_extents_loop [] volume_bitmap t = Inr t"
| "check_extents_loop ((lcn_start, lcn_end) # rest) volume_bitmap t =
     (case check_clusters volume_bitmap [lcn_start .. lcn_end] t of
        Inl e \<Rightarrow> Inl e
      | Inr t' \<Rightarrow> check_extents_loop rest volume_bitmap t')"

text \<open>
  \<open>check_extents\<close> returns \<open>(count_free, count_allocated)\<close> and appends to the caller's
  list; the model returns the list as the third component.
\<close>

definition check_extents ::
  "extent list \<Rightarrow> int list \<Rightarrow> extent list option \<Rightarrow> error + tally" where
  "check_extents extents volume_bitmap allocated_extents =
     check_extents_loop extents volume_bitmap (0, 0, allocated_extents)"

section \<open>WindowsWipe: the interface to Windows\<close>

record 's win32 =
  w_os_name :: string
  w_splitdrive :: "string \<Rightarrow> string \<times> string"
  w_dirname :: "string \<Rightarrow> string"
  w_GetVolumeInformation :: "string \<Rightarrow> ('s, string \<times> int \<times> string) io"
  w_GetDiskFreeSpace :: "string \<Rightarrow> ('s, int \<times> int \<times> int \<times> int) io"
  w_GetDriveType :: "string \<Rightarrow> ('s, int) io"
  w_CreateFile :: "string \<Rightarrow> open_kind \<Rightarrow> ('s, handle) io"
  w_CloseHandle :: "handle \<Rightarrow> ('s, unit) io"
  w_DeleteFile :: "string \<Rightarrow> ('s, unit) io"
  w_GetFileAttributesW :: "string \<Rightarrow> ('s, nat) io"
  w_SetFileAttributesW :: "string \<Rightarrow> nat \<Rightarrow> ('s, unit) io"
  w_GetFileSize :: "handle \<Rightarrow> ('s, int) io"
  w_GetRetrievalPointers :: "handle \<Rightarrow> nat \<Rightarrow> ('s, int \<times> vcn_lcn list) io"
  w_GetVolumeBitmap :: "handle \<Rightarrow> int \<Rightarrow> ('s, int \<times> int \<times> int list) io"
  w_MoveFile :: "handle \<Rightarrow> handle \<Rightarrow> int \<Rightarrow> int \<Rightarrow> int \<Rightarrow> ('s, unit) io"
  w_WriteFile :: "handle \<Rightarrow> nat \<Rightarrow> ('s, nat) io"
  w_FlushFileBuffers :: "handle \<Rightarrow> ('s, unit) io"
  w_LockFile :: "handle \<Rightarrow> int \<Rightarrow> int \<Rightarrow> ('s, unit) io"
  w_SetFilePointer :: "handle \<Rightarrow> ('s, unit) io"
  w_SetEndOfFile :: "handle \<Rightarrow> ('s, unit) io"
  w_Sleep :: "int \<Rightarrow> ('s, unit) io"

definition CreateFile :: "'s win32 \<Rightarrow> string \<Rightarrow> open_kind \<Rightarrow> ('s world, handle) io" where
  "CreateFile os path kind = os_call (P_CreateFile path kind) id (w_CreateFile os path kind)"

definition CloseHandle :: "'s win32 \<Rightarrow> handle \<Rightarrow> ('s world, unit) io" where
  "CloseHandle os h = os_call (P_CloseHandle h) (\<lambda>_. 0) (w_CloseHandle os h)"

definition DeleteFile :: "'s win32 \<Rightarrow> string \<Rightarrow> ('s world, unit) io" where
  "DeleteFile os path = os_call (P_DeleteFile path) (\<lambda>_. 0) (w_DeleteFile os path)"

definition WriteFile :: "'s win32 \<Rightarrow> handle \<Rightarrow> nat \<Rightarrow> ('s world, nat) io" where
  "WriteFile os h n = os_call (P_WriteFile h n) id (w_WriteFile os h n)"

definition FlushFileBuffers :: "'s win32 \<Rightarrow> handle \<Rightarrow> ('s world, unit) io" where
  "FlushFileBuffers os h = os_call (P_FlushFileBuffers h) (\<lambda>_. 0) (w_FlushFileBuffers os h)"

definition Sleep :: "'s win32 \<Rightarrow> int \<Rightarrow> ('s world, unit) io" where
  "Sleep os ms = os_call (P_Sleep ms) (\<lambda>_. 0) (w_Sleep os ms)"

text \<open>\<open>logger.debug("Examining extent from %d to %d for wipe...")\<close>, kept in the trace.\<close>

definition log_examining :: "int \<Rightarrow> int \<Rightarrow> ('s world, unit) io" where
  "log_examining lcn_start lcn_end =
     os_call (P_log_examining lcn_start lcn_end) (\<lambda>_. 0) (\<lambda>s. (Inr (), s))"

definition WRITE_BUF_SIZE :: int where
  "WRITE_BUF_SIZE = 512 * 1024"

definition TMP_FILE_NAME :: string where
  "TMP_FILE_NAME = ''bbtemp.dat''"

text \<open>
  \<open>get_volume_bitmap\<close>: the \<open>FSCTL_GET_VOLUME_BITMAP\<close> request. The primitive returns the
  unpacked structure \<open>(starting_lcn, bitmap_size, bitmap)\<close>.
\<close>

definition get_volume_bitmap :: "'s win32 \<Rightarrow> handle \<Rightarrow> int \<Rightarrow> ('s world, int list \<times> int) io" where
  "get_volume_bitmap os volume_handle total_clusters =
     io_bind
       (os_call (P_GetVolumeBitmap volume_handle total_clusters) (\<lambda>_. 0)
          (w_GetVolumeBitmap os volume_handle total_clusters))
       (\<lambda>(starting_lcn, bitmap_size, volume_bitmap).
          io_bind (io_assert (starting_lcn = 0))
            (\<lambda>_. io_return (volume_bitmap, bitmap_size)))"

text \<open>
  \<open>get_extents\<close>: the loop over the buffer sizes. The primitive is the
  \<open>FSCTL_GET_RETRIEVAL_POINTERS\<close> request with the unpacking of its answer into
  \<open>(starting_vcn, ranges)\<close>. The loop ends with the structure, with "end of file"
  (error 38, \<open>return []\<close>) or with no structure at all.
\<close>

datatype rp_outcome = RP_Eof | RP_None | RP_Struct "int \<times> vcn_lcn list"

fun rp_loop :: "'s win32 \<Rightarrow> handle \<Rightarrow> nat list \<Rightarrow> ('s world, rp_outcome) io" where
  "rp_loop os file_handle [] w = (Inr RP_None, w)"
| "rp_loop os file_handle (retrieval_pointers_buf_size # rest) w =
     (case os_call (P_GetRetrievalPointers file_handle retrieval_pointers_buf_size) (\<lambda>_. 0)
             (w_GetRetrievalPointers os file_handle retrieval_pointers_buf_size) w of
        (Inr rp_struct, w') \<Rightarrow> (Inr (RP_Struct rp_struct), w')
      | (Inl (WinError err_code), w') \<Rightarrow>
          if err_code = 38 then (Inr RP_Eof, w')
          else if err_code \<in> {122, 234} then rp_loop os file_handle rest w'
          else (Inl (WinError err_code), w')
      | (Inl e, w') \<Rightarrow> (Inl e, w'))"

definition get_extents ::
  "'s win32 \<Rightarrow> handle \<Rightarrow> bool \<Rightarrow> ('s world, (int \<times> int) list) io" where
  "get_extents os file_handle translate_to_extents =
     io_bind (rp_loop os file_handle [4 * 1024, 32 * 1024, 256 * 1024, 2 * 1024 ^ 2])
       (\<lambda>r. case r of
          RP_Eof \<Rightarrow> io_return []
        | RP_None \<Rightarrow> io_raise (Exception ''Failed to get retrieval pointers'')
        | RP_Struct (starting_vcn, ranges) \<Rightarrow>
            io_bind (io_assert (starting_vcn = 0))
              (\<lambda>_. if translate_to_extents then
                     (case logical_ranges_to_extents ranges False of
                        Inl e \<Rightarrow> io_raise e
                      | Inr es \<Rightarrow> io_return es)
                   else io_return ranges))"

section \<open>WindowsWipe: writing zeros\<close>

text \<open>
  The loop of \<open>write_zero_fill\<close>: buffers of \<open>WRITE_BUF_SIZE\<close> bytes or less until
  \<open>write_length_bytes\<close> are written; \<open>assert bytes_written == len(write_string)\<close>.
  \<open>next_buffer\<close> is the \<open>if\<close> at the head of the loop body: the length of
  \<open>write_string\<close> and the new value of \<open>write_length_bytes\<close>.
\<close>

definition next_buffer :: "int \<Rightarrow> int \<times> int" where
  "next_buffer write_length_bytes =
     (if write_length_bytes \<ge> WRITE_BUF_SIZE
      then (WRITE_BUF_SIZE, write_length_bytes - WRITE_BUF_SIZE)
      else (write_length_bytes, 0))"

function zero_fill_loop :: "'s win32 \<Rightarrow> handle \<Rightarrow> int \<Rightarrow> ('s world, unit) io" where
  "zero_fill_loop os file_handle write_length_bytes w =
     (if write_length_bytes > 0 then
        (case WriteFile os file_handle (nat (fst (next_buffer write_length_bytes))) w of
           (Inl e, w') \<Rightarrow> (Inl e, w')
         | (Inr bytes_written', w') \<Rightarrow>
             if int bytes_written' = fst (next_buffer write_length_bytes)
             then zero_fill_loop os file_handle (snd (next_buffer write_length_bytes)) w'
             else (Inl AssertionError, w'))
      else (Inr (), w))"
  by pat_completeness auto
termination
  by (relation "measure (\<lambda>(os, file_handle, write_length_bytes, w). nat write_length_bytes)")
     (auto simp: WRITE_BUF_SIZE_def next_buffer_def)

declare zero_fill_loop.simps [simp del]

definition write_zero_fill :: "'s win32 \<Rightarrow> handle \<Rightarrow> int \<Rightarrow> ('s world, unit) io" where
  "write_zero_fill os file_handle write_length_bytes =
     io_bind (zero_fill_loop os file_handle write_length_bytes)
       (\<lambda>_. FlushFileBuffers os file_handle)"

text \<open>
  \<open>wipe_file_direct\<close>. The \<open>for\<close> loop over the extents only assigns \<open>write_length\<close>, so
  the value after the loop is the one of the last extent; \<open>write_zero_fill\<close> is called
  once, after the \<open>if\<close>. (With a non-empty list the loop body runs, so the start value of
  the fold is never what is written.)
\<close>

definition wipe_file_direct ::
  "'s win32 \<Rightarrow> handle \<Rightarrow> extent list \<Rightarrow> int \<Rightarrow> int \<Rightarrow> ('s world, unit) io" where
  "wipe_file_direct os file_handle extents cluster_size file_size =
     io_bind (io_assert (cluster_size > 0)) (\<lambda>_.
     io_bind
       (os_call (P_LockFile file_handle (file_size AND 0xFFFF) (drop_bit 16 file_size)) (\<lambda>_. 0)
          (w_LockFile os file_handle (file_size AND 0xFFFF) (drop_bit 16 file_size)))
       (\<lambda>_.
     let write_length =
           (if extents \<noteq> [] then
              fold (\<lambda>(lcn_start, lcn_end) write_length. (lcn_end - lcn_start + 1) * cluster_size)
                extents 0
            else file_size)
     in write_zero_fill os file_handle write_length))"

text \<open>The number of bytes the \<open>WriteFile\<close> calls of a trace have written through a handle.\<close>

fun written_through :: "handle \<Rightarrow> event \<Rightarrow> nat" where
  "written_through h (Call (P_WriteFile h' n) (Some k)) = (if h' = h then k else 0)"
| "written_through h _ = 0"

definition bytes_through :: "handle \<Rightarrow> event list \<Rightarrow> nat" where
  "bytes_through h tr = sum_list (map (written_through h) tr)"

section \<open>WindowsWipe: polling for freed clusters\<close>

text \<open>
  \<open>file_wipe\<close> passes \<open>poll_clusters_freed\<close> either a list or the generator object
  returned by \<open>extents_a_minus_b\<close>. A list is false when empty and can be iterated any
  number of times; a generator object is always true and yields its items once.
  \<open>ExtGen xs\<close> is a generator that has \<open>xs\<close> left to yield.
\<close>

datatype extents_obj = ExtList "extent list" | ExtGen "extent list"

fun truthy :: "extents_obj \<Rightarrow> bool" where
  "truthy (ExtList xs) = (xs \<noteq> [])"
| "truthy (ExtGen xs) = True"

text \<open>Iterating to the end: the items, and the object afterwards.\<close>

fun iterate :: "extents_obj \<Rightarrow> extent list \<times> extents_obj" where
  "iterate (ExtList xs) = (xs, ExtList xs)"
| "iterate (ExtGen xs) = (xs, ExtGen [])"

text \<open>
  \<open>for _ in range(polling_duration_seconds * attempts_per_second)\<close>, with \<open>n\<close> the
  number of rounds left. \<open>Sleep(1000 / attempts_per_second)\<close> is \<open>Sleep(100)\<close>.
\<close>

function poll_loop ::
  "'s win32 \<Rightarrow> handle \<Rightarrow> int \<Rightarrow> nat \<Rightarrow> extents_obj \<Rightarrow> ('s world, bool \<times> extents_obj) io" where
  "poll_loop os volume_handle total_clusters n orig_extents w =
     (if n = 0 then (Inr (False, orig_extents), w)
      else
        (case get_volume_bitmap os volume_handle total_clusters w of
           (Inl e, w1) \<Rightarrow> (Inl e, w1)
         | (Inr (volume_bitmap, _), w1) \<Rightarrow>
             (case check_extents (fst (iterate orig_extents)) volume_bitmap None of
                Inl e \<Rightarrow> (Inl e, w1)
              | Inr (count_free, count_allocated, _) \<Rightarrow>
                  if count_free > count_allocated
                  then (Inr (True, snd (iterate orig_extents)), w1)
                  else
                    (case Sleep os 100 w1 of
                       (Inl e, w2) \<Rightarrow> (Inl e, w2)
                     | (Inr _, w2) \<Rightarrow>
                         poll_loop os volume_handle total_clusters (n - 1)
                           (snd (iterate orig_extents)) w2))))"
  by pat_completeness auto
termination
  by (relation "measure (\<lambda>(os, volume_handle, total_clusters, n, orig_extents, w). n)") auto

declare poll_loop.simps [simp del]

definition poll_clusters_freed ::
  "'s win32 \<Rightarrow> handle \<Rightarrow> int \<Rightarrow> extents_obj \<Rightarrow> ('s world, bool \<times> extents_obj) io" where
  "poll_clusters_freed os volume_handle total_clusters orig_extents =
     (let polling_duration_seconds = 7;
          attempts_per_second = 10
      in if \<not> truthy orig_extents then io_return (True, orig_extents)
         else poll_loop os volume_handle total_clusters
                (polling_duration_seconds * attempts_per_second) orig_extents)"

section \<open>WindowsWipe: the defrag wipe\<close>

text \<open>A \<open>for\<close> loop whose body is run for its effects; an exception ends it.\<close>

fun io_foreach :: "'a list \<Rightarrow> ('a \<Rightarrow> ('s, 'b) io) \<Rightarrow> ('s, unit) io" where
  "io_foreach [] f w = (Inr (), w)"
| "io_foreach (x # xs) f w =
     (case f x w of
        (Inl e, w') \<Rightarrow> (Inl e, w')
      | (Inr _, w') \<Rightarrow> io_foreach xs f w')"

lemma io_foreach_cong [fundef_cong]:
  assumes "xs = ys" and "w = w'" and "\<And>x v. x \<in> set ys \<Longrightarrow> f x v = g x v"
  shows "io_foreach xs f w = io_foreach ys g w'"
  unfolding assms(1,2) using assms(3)
proof (induction ys arbitrary: w')
  case Nil
  show ?case by simp
next
  case (Cons y ys)
  have "f y w' = g y w'" by (rule Cons.prems) simp
  moreover have "io_foreach ys f v = io_foreach ys g v" for v
    by (rule Cons.IH) (simp add: Cons.prems)
  ultimately show ?case by (simp split: prod.splits sum.splits)
qed

lemma split_extent_smaller:
  assumes lt: "lcn_start < lcn_end" and x: "x \<in> set (split_extent lcn_start lcn_end)"
  shows "snd x - fst x < lcn_end - lcn_start"
proof -
  let ?count = "lcn_end - lcn_start + 1"
  have sz: "(0::int) < 10 ^ find_exponent ?count 0" by simp
  from x have "x \<in> set (pieces lcn_start lcn_end (10 ^ find_exponent ?count 0))"
    by (simp add: split_extent_pieces)
  from pieces_lengths [OF sz this] have "extent_length x \<le> 10 ^ find_exponent ?count 0"
    by simp
  also from lt have "\<dots> < ?count" by (intro extent_size_less_count) simp
  finally show ?thesis by (simp add: extent_length_def)
qed

text \<open>
  \<open>move_file\<close>: the \<open>FSCTL_MOVE_FILE\<close> request (the handle is never \<open>None\<close> where it is
  called).
\<close>

definition move_file ::
  "'s win32 \<Rightarrow> handle \<Rightarrow> handle \<Rightarrow> int \<Rightarrow> int \<Rightarrow> int \<Rightarrow> ('s world, unit) io" where
  "move_file os volume_handle file_handle starting_vcn starting_lcn cluster_count =
     os_call (P_MoveFile volume_handle file_handle starting_vcn starting_lcn cluster_count)
       (\<lambda>_. 0)
       (w_MoveFile os volume_handle file_handle starting_vcn starting_lcn cluster_count)"

text \<open>
  The loop over the extents of the zero-fill file. It returns \<open>False\<close> as soon as a
  move raises (the bare \<open>except\<close> catches everything), \<open>True\<close> when it reaches the end.
\<close>

fun move_loop ::
  "'s win32 \<Rightarrow> handle \<Rightarrow> handle \<Rightarrow> int \<Rightarrow> int \<Rightarrow> extent list \<Rightarrow> 's world \<Rightarrow> bool \<times> 's world" where
  "move_loop os volume_handle file_handle lcn_start new_vcn [] w = (True, w)"
| "move_loop os volume_handle file_handle lcn_start new_vcn ((new_lcn_start, new_lcn_end) # rest) w =
     (let cluster_count = new_lcn_end - new_lcn_start + 1;
          cluster_dest = lcn_start + new_vcn
      in if new_lcn_start \<noteq> cluster_dest then
           (case move_file os volume_handle file_handle new_vcn cluster_dest cluster_count w of
              (Inl e, w') \<Rightarrow> (False, w')
            | (Inr _, w') \<Rightarrow>
                move_loop os volume_handle file_handle lcn_start (new_vcn + cluster_count) rest w')
         else move_loop os volume_handle file_handle lcn_start (new_vcn + cluster_count) rest w)"

text \<open>
  The head of \<open>wipe_extent_by_defrag\<close>, up to the decision taken from the volume bitmap
  (\<open>SIMULATE_CONCURRENCY\<close> is \<open>False\<close>): every cluster allocated and none free; some
  cluster allocated or more than four buffers to write; the whole extent free.
\<close>

datatype decision = AllAllocated | Subdivide | WholeFree

definition examine ::
  "'s win32 \<Rightarrow> handle \<Rightarrow> int \<Rightarrow> int \<Rightarrow> int \<Rightarrow> int \<Rightarrow> ('s world, decision) io" where
  "examine os volume_handle lcn_start lcn_end cluster_size total_clusters =
     io_bind (io_assert (cluster_size > 0)) (\<lambda>_.
     io_bind (log_examining lcn_start lcn_end) (\<lambda>_.
     let write_length = (lcn_end - lcn_start + 1) * cluster_size in
     io_bind (get_volume_bitmap os volume_handle total_clusters) (\<lambda>(volume_bitmap, _).
       case check_extents [(lcn_start, lcn_end)] volume_bitmap None of
         Inl e \<Rightarrow> io_raise e
       | Inr (count_free, count_allocated, _) \<Rightarrow>
           if count_allocated > 0 \<and> count_free = 0 then io_return AllAllocated
           else if count_allocated > 0 \<or> write_length > WRITE_BUF_SIZE * 4
           then io_return Subdivide
           else io_return WholeFree)))"

text \<open>
  The zero-fill file is put in place and its clusters are moved. \<open>True\<close>: every move
  went through, the file is closed and deleted. \<open>False\<close>: a move raised and the file was
  closed in the handler.
\<close>

definition place_zero_fill ::
  "'s win32 \<Rightarrow> handle \<Rightarrow> int \<Rightarrow> int \<Rightarrow> int \<Rightarrow> string \<Rightarrow> ('s world, bool) io" where
  "place_zero_fill os volume_handle lcn_start lcn_end cluster_size tmp_file_path =
     (let write_length = (lcn_end - lcn_start + 1) * cluster_size in
      io_bind (CreateFile os tmp_file_path CreateAlways) (\<lambda>file_handle.
      io_bind (write_zero_fill os file_handle write_length) (\<lambda>_.
      io_bind (get_extents os file_handle True) (\<lambda>new_extents w.
        case move_loop os volume_handle file_handle lcn_start 0 new_extents w of
          (True, w') \<Rightarrow>
            io_bind (CloseHandle os file_handle) (\<lambda>_.
            io_bind (DeleteFile os tmp_file_path) (\<lambda>_. io_return True)) w'
        | (False, w') \<Rightarrow>
            io_bind (CloseHandle os file_handle) (\<lambda>_. io_return False) w'))))"

function wipe_extent_by_defrag ::
  "'s win32 \<Rightarrow> handle \<Rightarrow> int \<Rightarrow> int \<Rightarrow> int \<Rightarrow> int \<Rightarrow> string \<Rightarrow> ('s world, bool) io" where
  "wipe_extent_by_defrag os volume_handle lcn_start lcn_end cluster_size total_clusters
       tmp_file_path w =
     (case examine os volume_handle lcn_start lcn_end cluster_size total_clusters w of
        (Inl e, w1) \<Rightarrow> (Inl e, w1)
      | (Inr AllAllocated, w1) \<Rightarrow> (Inr False, w1)
      | (Inr Subdivide, w1) \<Rightarrow>
          if lcn_start \<ge> lcn_end then (Inr False, w1)
          else
            (case io_foreach (split_extent lcn_start lcn_end)
                    (\<lambda>x. wipe_extent_by_defrag os volume_handle (fst x) (snd x) cluster_size
                           total_clusters tmp_file_path) w1 of
               (Inl e, w2) \<Rightarrow> (Inl e, w2)
             | (Inr _, w2) \<Rightarrow> (Inr True, w2))
      | (Inr WholeFree, w1) \<Rightarrow>
          (case place_zero_fill os volume_handle lcn_start lcn_end cluster_size tmp_file_path w1 of
             (Inl e, w2) \<Rightarrow> (Inl e, w2)
           | (Inr True, w2) \<Rightarrow> (Inr True, w2)
           | (Inr False, w2) \<Rightarrow>
               if lcn_start \<ge> lcn_end then (Inr False, w2)
               else
                 (case io_foreach (split_extent lcn_start lcn_end)
                         (\<lambda>x. wipe_extent_by_defrag os volume_handle (fst x) (snd x) cluster_size
                                total_clusters tmp_file_path) w2 of
                    (Inl e, w3) \<Rightarrow> (Inl e, w3)
                  | (Inr _, w3) \<Rightarrow> (Inr True, w3))))"
  by pat_completeness auto
termination
proof (relation "measure (\<lambda>(os, volume_handle, lcn_start, lcn_end, cluster_size, total_clusters,
    tmp_file_path, w). nat (lcn_end - lcn_start))", goal_cases)
  case 1
  show ?case by simp
next
  case (2 os volume_handle lcn_start lcn_end cluster_size total_clusters tmp_file_path w x1 x2 x3 x4 x5)
  then show ?case using split_extent_smaller [of lcn_start lcn_end] by fastforce
next
  case (3 os volume_handle lcn_start lcn_end cluster_size total_clusters tmp_file_path w x1 x2 x3 x4 x5 x6 x7 x8)
  then show ?case using split_extent_smaller [of lcn_start lcn_end] by fastforce
qed

declare wipe_extent_by_defrag.simps [simp del]

section \<open>WindowsWipe: the wipe driver\<close>

text \<open>Values of the \<open>win32file\<close> and \<open>win32con\<close> constants that the code imports.\<close>

definition DRIVE_UNKNOWN :: int where "DRIVE_UNKNOWN = 0"
definition DRIVE_REMOTE :: int where "DRIVE_REMOTE = 4"
definition DRIVE_CDROM :: int where "DRIVE_CDROM = 5"
definition FILE_ATTRIBUTE_READONLY :: nat where "FILE_ATTRIBUTE_READONLY = 0x1"
definition FILE_ATTRIBUTE_SPARSE_FILE :: nat where "FILE_ATTRIBUTE_SPARSE_FILE = 0x200"
definition FILE_ATTRIBUTE_COMPRESSED :: nat where "FILE_ATTRIBUTE_COMPRESSED = 0x800"
definition FILE_ATTRIBUTE_ENCRYPTED :: nat where "FILE_ATTRIBUTE_ENCRYPTED = 0x4000"

definition upper :: "string \<Rightarrow> string" where
  "upper s = map (\<lambda>c. let n = (of_char c :: nat)
                       in if 97 \<le> n \<and> n \<le> 122 then char_of (n - 32) else c) s"

definition lower :: "string \<Rightarrow> string" where
  "lower s = map (\<lambda>c. let n = (of_char c :: nat)
                       in if 65 \<le> n \<and> n \<le> 90 then char_of (n + 32) else c) s"

definition check_os :: "'s win32 \<Rightarrow> ('s world, unit) io" where
  "check_os os = (if lower (w_os_name os) \<noteq> ''nt'' then io_raise RuntimeError else io_return ())"

definition volume_from_file :: "'s win32 \<Rightarrow> string \<Rightarrow> string" where
  "volume_from_file os file_name =
     (let split_path = w_splitdrive os (extended_path_undo (w_os_name os) file_name);
          volume = fst split_path
      in if volume \<noteq> [] \<and> last volume \<noteq> backslash then volume @ [backslash] else volume)"

record volume_info =
  vi_drive_name :: string
  vi_max_path :: int
  vi_file_system :: string
  vi_sectors_per_cluster :: int
  vi_bytes_per_sector :: int
  vi_total_clusters :: int

definition get_volume_information :: "'s win32 \<Rightarrow> string \<Rightarrow> ('s world, volume_info) io" where
  "get_volume_information os volume =
     (if volume = [] then io_raise UnsupportedFileSystemError
      else
        io_bind (os_call (P_GetVolumeInformation volume) (\<lambda>_. 0) (w_GetVolumeInformation os volume))
          (\<lambda>(name, max_path, file_system).
        io_bind (os_call (P_GetDiskFreeSpace volume) (\<lambda>_. 0) (w_GetDiskFreeSpace os volume))
          (\<lambda>(sectors_per_cluster, bytes_per_sector, free_clusters, total_clusters).
        io_bind (os_call (P_GetDriveType volume) (\<lambda>_. 0) (w_GetDriveType os volume))
          (\<lambda>result3.
        if result3 = DRIVE_REMOTE \<or> result3 = DRIVE_CDROM \<or> result3 = DRIVE_UNKNOWN
        then io_raise UnsupportedFileSystemError
        else if upper file_system = ''UDF'' then io_raise UnsupportedFileSystemError
        else io_return
               \<lparr>vi_drive_name = name, vi_max_path = max_path, vi_file_system = file_system,
                vi_sectors_per_cluster = sectors_per_cluster,
                vi_bytes_per_sector = bytes_per_sector,
                vi_total_clusters = total_clusters\<rparr>))))"

definition rstrip :: "char \<Rightarrow> string \<Rightarrow> string" where
  "rstrip c s = rev (dropWhile (\<lambda>x. x = c) (rev s))"

definition obtain_readwrite :: "'s win32 \<Rightarrow> string \<Rightarrow> ('s world, handle) io" where
  "obtain_readwrite os volume =
     io_bind (io_assert (volume \<noteq> [])) (\<lambda>_.
     let volume = [backslash, backslash, CHR ''.'', backslash] @ volume;
         volume = (if last volume = backslash then rstrip backslash volume else volume)
     in CreateFile os volume OpenVolume)"

definition open_file :: "'s win32 \<Rightarrow> string \<Rightarrow> open_kind \<Rightarrow> ('s world, handle) io" where
  "open_file os file_name mode = CreateFile os file_name mode"

definition GetFileAttributesW :: "'s win32 \<Rightarrow> string \<Rightarrow> ('s world, nat) io" where
  "GetFileAttributesW os file_name =
     os_call (P_GetFileAttributesW file_name) (\<lambda>_. 0) (w_GetFileAttributesW os file_name)"

definition get_file_basic_info ::
  "'s win32 \<Rightarrow> string \<Rightarrow> handle \<Rightarrow> ('s world, int \<times> bool) io" where
  "get_file_basic_info os file_name file_handle =
     io_bind (GetFileAttributesW os file_name) (\<lambda>file_attributes.
     io_bind (os_call (P_GetFileSize file_handle) (\<lambda>_. 0) (w_GetFileSize os file_handle))
       (\<lambda>file_size.
     let is_compressed = (file_attributes AND FILE_ATTRIBUTE_COMPRESSED \<noteq> 0);
         is_encrypted = (file_attributes AND FILE_ATTRIBUTE_ENCRYPTED \<noteq> 0);
         is_sparse = (file_attributes AND FILE_ATTRIBUTE_SPARSE_FILE \<noteq> 0);
         is_special = (is_compressed \<or> is_encrypted \<or> is_sparse)
     in io_return (file_size, is_special)))"

definition truncate_file :: "'s win32 \<Rightarrow> handle \<Rightarrow> ('s world, unit) io" where
  "truncate_file os file_handle =
     io_bind (os_call (P_SetFilePointer file_handle) (\<lambda>_. 0) (w_SetFilePointer os file_handle))
       (\<lambda>_.
     io_bind (os_call (P_SetEndOfFile file_handle) (\<lambda>_. 0) (w_SetEndOfFile os file_handle))
       (\<lambda>_. FlushFileBuffers os file_handle))"

definition choose_if_bridged ::
  "'s win32 \<Rightarrow> handle \<Rightarrow> int \<Rightarrow> extent list \<Rightarrow> extent list \<Rightarrow> ('s world, extent list) io" where
  "choose_if_bridged os volume_handle total_clusters orig_extents bridged_extents =
     io_bind (get_volume_bitmap os volume_handle total_clusters) (\<lambda>(volume_bitmap, _).
       case check_extents orig_extents volume_bitmap None of
         Inl e \<Rightarrow> io_raise e
       | Inr (_, count_oallocated, _) \<Rightarrow>
           (case check_extents bridged_extents volume_bitmap (Some []) of
              Inl e \<Rightarrow> io_raise e
            | Inr (_, count_ballocated, allocated_extents) \<Rightarrow>
                let bridged_extents =
                      extents_a_minus_b bridged_extents (case allocated_extents of
                                                           None \<Rightarrow> [] | Some l \<Rightarrow> l);
                    extra_allocated_clusters = count_ballocated - count_oallocated;
                    saving_in_extents = int (length orig_extents) - int (length bridged_extents);
                    tradeoff = saving_in_extents - extra_allocated_clusters * 10
                in if tradeoff > 0 then io_return bridged_extents
                   else io_return orig_extents))"

text \<open>
  \<open>clean_up\<close>: \<open>None\<close> is false, a handle returned by \<open>CreateFile\<close> is true, a path is
  true when not empty. The bare \<open>except: pass\<close> around the three steps swallows the
  first exception and skips what is left.
\<close>

definition clean_up ::
  "'s win32 \<Rightarrow> handle option \<Rightarrow> handle option \<Rightarrow> string option \<Rightarrow> ('s world, unit) io" where
  "clean_up os file_handle volume_handle tmp_file_path =
     io_catch
       (io_bind (case file_handle of None \<Rightarrow> io_return () | Some h \<Rightarrow> CloseHandle os h) (\<lambda>_.
        io_bind (case volume_handle of None \<Rightarrow> io_return () | Some h \<Rightarrow> CloseHandle os h) (\<lambda>_.
        case tmp_file_path of
          None \<Rightarrow> io_return ()
        | Some path \<Rightarrow> if path \<noteq> [] then DeleteFile os path else io_return ())))
       (\<lambda>e. io_return ())"

text \<open>
  \<open>file_wipe\<close>. The branch for a regular file ends the function when the extents are
  unchanged (\<open>None\<close> below); otherwise \<open>orig_extents\<close> becomes the generator object of
  \<open>extents_a_minus_b\<close>. For a special file \<open>orig_extents\<close> stays the list. The object
  that \<open>poll_clusters_freed\<close> has iterated is the one the last loop iterates.
  \<open>bridged_extents\<close> is only assigned and only read for a special file (the empty
  list stands for the unassigned variable); \<open>attrs & ~FILE_ATTRIBUTE_READONLY\<close> clears
  the read-only bit, written here as a subtraction on naturals.
\<close>

definition file_wipe :: "'s win32 \<Rightarrow> string \<Rightarrow> ('s world, unit) io" where
  "file_wipe os file_name0 =
     (let file_name = extended_path (w_os_name os) file_name0 in
      io_bind (check_os os) (\<lambda>_.
      let volume = volume_from_file os file_name in
      io_bind (get_volume_information os volume) (\<lambda>volume_info.
      let cluster_size = vi_sectors_per_cluster volume_info * vi_bytes_per_sector volume_info in
      io_bind (open_file os file_name OpenRead) (\<lambda>file_handle.
      io_bind (get_file_basic_info os file_name file_handle) (\<lambda>(file_size, is_special).
      io_bind (get_extents os file_handle True) (\<lambda>orig_extents.
      io_bind
        (if is_special then
           io_bind (get_extents os file_handle False) (\<lambda>ranges.
             case logical_ranges_to_extents ranges True of
               Inl e \<Rightarrow> io_raise e
             | Inr es \<Rightarrow> io_return es)
         else io_return [])
        (\<lambda>bridged_extents.
      io_bind (CloseHandle os file_handle) (\<lambda>_.
      io_bind (obtain_readwrite os volume) (\<lambda>volume_handle.
      io_bind (GetFileAttributesW os file_name) (\<lambda>attrs.
      io_bind
        (if attrs AND FILE_ATTRIBUTE_READONLY \<noteq> 0 then
           os_call (P_SetFileAttributesW file_name (attrs - (attrs AND FILE_ATTRIBUTE_READONLY)))
             (\<lambda>_. 0)
             (w_SetFileAttributesW os file_name (attrs - (attrs AND FILE_ATTRIBUTE_READONLY)))
         else io_return ())
        (\<lambda>_.
      io_bind (open_file os file_name OpenReadWrite) (\<lambda>file_handle.
      io_bind
        (if \<not> is_special then
           io_bind (wipe_file_direct os file_handle orig_extents cluster_size file_size) (\<lambda>_.
           io_bind (get_extents os file_handle True) (\<lambda>new_extents.
           io_bind (CloseHandle os file_handle) (\<lambda>_.
           if orig_extents = new_extents then
             io_bind (clean_up os None (Some volume_handle) None) (\<lambda>_. io_return None)
           else io_return (Some (ExtGen (extents_a_minus_b orig_extents new_extents))))))
         else
           io_bind (truncate_file os file_handle) (\<lambda>_.
           io_bind (CloseHandle os file_handle) (\<lambda>_.
           io_return (Some (ExtList orig_extents)))))
        (\<lambda>r. case r of
           None \<Rightarrow> io_return ()
         | Some orig_extents \<Rightarrow>
             io_bind (poll_clusters_freed os volume_handle (vi_total_clusters volume_info)
                        orig_extents)
               (\<lambda>(_, orig_extents).
             let tmp_file_path = w_dirname os file_name @ [backslash] @ TMP_FILE_NAME in
             io_bind
               (if is_special then
                  io_bind (choose_if_bridged os volume_handle (vi_total_clusters volume_info)
                             (fst (iterate orig_extents)) bridged_extents)
                    (\<lambda>chosen. io_return (ExtList chosen))
                else io_return orig_extents)
               (\<lambda>orig_extents.
             io_bind
               (io_foreach (fst (iterate orig_extents))
                  (\<lambda>x. wipe_extent_by_defrag os volume_handle (fst x) (snd x) cluster_size
                         (vi_total_clusters volume_info) tmp_file_path))
               (\<lambda>_. clean_up os None (Some volume_handle) (Some tmp_file_path)))))))))))))))))"

text \<open>
  A small Windows to run the code on. The state counts the successful \<open>WriteFile\<close>
  calls; a file has the run \<open>(100, 101)\<close> before the first write and \<open>(200, 201)\<close>
  after it; the cluster size is \<open>8 * 512\<close>; \<open>CreateFile\<close> returns the handles 1 (read),
  2 (read and write), 3 (volume) and 4 (the zero-fill file).
\<close>

definition sim_win :: "bool \<Rightarrow> int list \<Rightarrow> nat win32" where
  "sim_win write_ok bitmap =
     \<lparr>w_os_name = ''nt'',
      w_splitdrive = (\<lambda>path. (''C:'', drop 2 path)),
      w_dirname = (\<lambda>path. ''C:''),
      w_GetVolumeInformation = (\<lambda>volume s. (Inr (''disk'', 255, ''NTFS''), s)),
      w_GetDiskFreeSpace = (\<lambda>volume s. (Inr (8, 512, 1000, 2000), s)),
      w_GetDriveType = (\<lambda>volume s. (Inr 3, s)),
      w_CreateFile = (\<lambda>path kind s.
         (Inr (case kind of OpenRead \<Rightarrow> 1 | OpenReadWrite \<Rightarrow> 2 | OpenVolume \<Rightarrow> 3
               | CreateAlways \<Rightarrow> 4), s)),
      w_CloseHandle = (\<lambda>h s. (Inr (), s)),
      w_DeleteFile = (\<lambda>path s. (Inr (), s)),
      w_GetFileAttributesW = (\<lambda>path s. (Inr 0, s)),
      w_SetFileAttributesW = (\<lambda>path attrs s. (Inr (), s)),
      w_GetFileSize = (\<lambda>h s. (Inr 8192, s)),
      w_GetRetrievalPointers = (\<lambda>h n s. (Inr (0, if s = 0 then [(2, 100)] else [(2, 200)]), s)),
      w_GetVolumeBitmap = (\<lambda>h total_clusters s. (Inr (0, 2000, bitmap), s)),
      w_MoveFile = (\<lambda>vh fh vcn lcn n s. (Inr (), s)),
      w_WriteFile = (\<lambda>h n s. if write_ok then (Inr n, Suc s) else (Inl (WinError 5), s)),
      w_FlushFileBuffers = (\<lambda>h s. (Inr (), s)),
      w_LockFile = (\<lambda>h lo hi s. (Inr (), s)),
      w_SetFilePointer = (\<lambda>h s. (Inr (), s)),
      w_SetEndOfFile = (\<lambda>h s. (Inr (), s)),
      w_Sleep = (\<lambda>ms s. (Inr (), s))\<rparr>"

definition sim_win_w0 :: "nat world" where
  "sim_win_w0 = \<lparr>os_state = 0, trace = []\<rparr>"



section \<open>Properties of the direct wipe and of the polling\<close>

lemma bytes_through_append [simp]:
  "bytes_through h (a @ b) = bytes_through h a + bytes_through h b"
  by (simp add: bytes_through_def)

lemma bytes_through_Nil [simp]: "bytes_through h [] = 0"
  by (simp add: bytes_through_def)

lemma zero_fill_loop_bytes:
  "zero_fill_loop os h n w = (Inr u, w') \<Longrightarrow>
   \<exists>ev. trace w' = trace w @ ev \<and> int (bytes_through h ev) = max n 0"
proof (induction os h n w rule: zero_fill_loop.induct)
  case (1 os file_handle write_length_bytes w)
  show ?case
  proof (cases "write_length_bytes > 0")
    case False
    with "1.prems" have "w' = w" by (simp add: zero_fill_loop.simps)
    with False show ?thesis by simp
  next
    case True
    let ?len = "fst (next_buffer write_length_bytes)"
    let ?rest = "snd (next_buffer write_length_bytes)"
    from True "1.prems" obtain k w1 where
      wr: "WriteFile os file_handle (nat ?len) w = (Inr k, w1)"
      and k: "int k = ?len"
      and rec: "zero_fill_loop os file_handle ?rest w1 = (Inr u, w')"
      by (auto simp: zero_fill_loop.simps [of os file_handle write_length_bytes w]
          split: prod.splits sum.splits if_splits)
    from os_call_trace [OF wr [unfolded WriteFile_def]]
    have t1: "trace w1 = trace w @ [Call (P_WriteFile file_handle (nat ?len)) (Some k)]"
      by simp
    from "1.IH" [OF True wr [symmetric] refl k rec] obtain ev where
      t2: "trace w' = trace w1 @ ev" and b: "int (bytes_through file_handle ev) = max ?rest 0"
      by blast
    let ?ev = "Call (P_WriteFile file_handle (nat ?len)) (Some k) # ev"
    have "trace w' = trace w @ ?ev" using t1 t2 by simp
    moreover have "int (bytes_through file_handle ?ev) = max write_length_bytes 0"
      using b k True by (auto simp: bytes_through_def next_buffer_def WRITE_BUF_SIZE_def)
    ultimately show ?thesis by blast
  qed
qed

lemma write_zero_fill_bytes:
  assumes "write_zero_fill os h n w = (Inr u, w')"
  shows "\<exists>ev. trace w' = trace w @ ev \<and> int (bytes_through h ev) = max n 0"
proof -
  from assms obtain u1 w1 where z: "zero_fill_loop os h n w = (Inr u1, w1)"
    and f: "FlushFileBuffers os h w1 = (Inr u, w')"
    unfolding write_zero_fill_def by (rule io_bind_Inr)
  from zero_fill_loop_bytes [OF z] obtain ev where
    t1: "trace w1 = trace w @ ev" and b: "int (bytes_through h ev) = max n 0" by blast
  from os_call_trace [OF f [unfolded FlushFileBuffers_def]]
  have "trace w' = trace w1 @ [Call (P_FlushFileBuffers h) (Some 0)]" by simp
  with t1 have "trace w' = trace w @ (ev @ [Call (P_FlushFileBuffers h) (Some 0)])" by simp
  moreover have "int (bytes_through h (ev @ [Call (P_FlushFileBuffers h) (Some 0)])) = max n 0"
    using b by (simp add: bytes_through_def)
  ultimately show ?thesis by blast
qed

text \<open>What \<open>wipe_file_direct\<close> writes: the length of the last extent only.\<close>

lemma fold_last_extent:
  "extents \<noteq> [] \<Longrightarrow>
   fold (\<lambda>(lcn_start, lcn_end) write_length. (lcn_end - lcn_start + 1) * cluster_size) extents a
     = extent_length (last extents) * cluster_size"
proof (induction extents arbitrary: a)
  case Nil
  then show ?case by simp
next
  case (Cons x xs)
  then show ?case by (cases xs) (auto simp: extent_length_def split: prod.splits)
qed

lemma wipe_file_direct_bytes:
  assumes "wipe_file_direct os h extents cluster_size file_size w = (Inr u, w')"
  shows "\<exists>ev. trace w' = trace w @ ev \<and>
           int (bytes_through h ev) =
             max (if extents \<noteq> [] then extent_length (last extents) * cluster_size
                  else file_size) 0"
proof -
  let ?wl = "if extents \<noteq> [] then extent_length (last extents) * cluster_size else file_size"
  from assms obtain u1 w1 where a: "io_assert (cluster_size > 0) w = (Inr u1, w1)"
    and r1: "io_bind
       (os_call (P_LockFile h (file_size AND 0xFFFF) (drop_bit 16 file_size)) (\<lambda>_. 0)
          (w_LockFile os h (file_size AND 0xFFFF) (drop_bit 16 file_size)))
       (\<lambda>_.
     let write_length =
           (if extents \<noteq> [] then
              fold (\<lambda>(lcn_start, lcn_end) write_length. (lcn_end - lcn_start + 1) * cluster_size)
                extents 0
            else file_size)
     in write_zero_fill os h write_length) w1 = (Inr u, w')"
    unfolding wipe_file_direct_def by (rule io_bind_Inr)
  from a have w1: "w1 = w"
    by (auto simp: io_assert_def io_return_def io_raise_def split: if_splits)
  from r1 obtain u2 w2 where
    l: "os_call (P_LockFile h (file_size AND 0xFFFF) (drop_bit 16 file_size)) (\<lambda>_. 0)
          (w_LockFile os h (file_size AND 0xFFFF) (drop_bit 16 file_size)) w1 = (Inr u2, w2)"
    and z0: "write_zero_fill os h (if extents \<noteq> [] then
              fold (\<lambda>(lcn_start, lcn_end) write_length. (lcn_end - lcn_start + 1) * cluster_size)
                extents 0
            else file_size) w2 = (Inr u, w')"
    by (rule io_bind_Inr) (auto simp: Let_def)
  have "(if extents \<noteq> [] then
              fold (\<lambda>(lcn_start, lcn_end) write_length. (lcn_end - lcn_start + 1) * cluster_size)
                extents 0
            else file_size) = ?wl"
    by (cases "extents = []") (simp_all add: fold_last_extent)
  with z0 have z: "write_zero_fill os h ?wl w2 = (Inr u, w')" by simp
  from os_call_trace [OF l] w1
  have t1: "trace w2 = trace w @
      [Call (P_LockFile h (file_size AND 0xFFFF) (drop_bit 16 file_size)) (Some 0)]" by simp
  from write_zero_fill_bytes [OF z] obtain ev where
    t2: "trace w' = trace w2 @ ev" and b: "int (bytes_through h ev) = max ?wl 0" by blast
  let ?ev = "Call (P_LockFile h (file_size AND 0xFFFF) (drop_bit 16 file_size)) (Some 0) # ev"
  have "trace w' = trace w @ ?ev" using t1 t2 by simp
  moreover have "int (bytes_through h ?ev) = max ?wl 0" using b by (simp add: bytes_through_def)
  ultimately show ?thesis by blast
qed

text \<open>
  C1. For a non-empty extent list the bytes written through the file handle should be
  the sum over all extents of the extent length times the cluster size. The code writes
  the length of the last extent only (\<open>wipe_file_direct_bytes\<close>): the loop assigns
  \<open>write_length\<close> and \<open>write_zero_fill\<close> is called once, after the loop. For the extents
  \<open>(0, 0), (5, 5)\<close> and a cluster size of 4096 it writes 4096 bytes, not 8192.
\<close>

theorem wipe_file_direct_writes_last_extent_only:
  "fst (wipe_file_direct (sim_win True []) 2 [(0, 0), (5, 5)] 4096 8192 sim_win_w0) = Inr () \<and>
   bytes_through 2
     (trace (snd (wipe_file_direct (sim_win True []) 2 [(0, 0), (5, 5)] 4096 8192 sim_win_w0)))
     = 4096 \<and>
   sum_of_lengths [(0, 0), (5, 5)] * 4096 = 8192"
  by (simp add: wipe_file_direct_def write_zero_fill_def zero_fill_loop.simps next_buffer_def
      WRITE_BUF_SIZE_def io_bind_def io_assert_def io_return_def os_call_def WriteFile_def
      FlushFileBuffers_def sim_win_def sim_win_w0_def bytes_through_def sum_of_lengths_def
      extent_length_def)

text \<open>
  C10. When the \<open>orig_extents\<close> list passed to \<open>poll_clusters_freed\<close> is empty, the
  function returns \<open>True\<close> at once, whatever the state of the volume: the state and the
  trace are unchanged, so the volume bitmap is not queried and \<open>Sleep\<close> is not called.
\<close>

theorem poll_clusters_freed_empty_list:
  "poll_clusters_freed os volume_handle total_clusters (ExtList []) w = (Inr (True, ExtList []), w)"
  by (simp add: poll_clusters_freed_def io_return_def)


section \<open>Properties of the defrag wipe\<close>

lemma check_clusters_allocated:
  "\<forall>c \<in> set cs. check_mapped_bit bm c = Inr True \<Longrightarrow>
   check_clusters bm cs (f, a, None) = Inr (f, a + int (length cs), None)"
  by (induction cs arbitrary: a) simp_all

lemma check_extents_all_allocated:
  assumes "\<forall>c \<in> {lcn_start .. lcn_end}. check_mapped_bit bm c = Inr True"
  shows "check_extents [(lcn_start, lcn_end)] bm None =
           Inr (0, int (length [lcn_start .. lcn_end]), None)"
proof -
  from assms have "\<forall>c \<in> set [lcn_start .. lcn_end]. check_mapped_bit bm c = Inr True" by simp
  from check_clusters_allocated [OF this, of 0 0] show ?thesis
    by (simp add: check_extents_def)
qed

lemma examine_unfold:
  assumes cs: "cluster_size > 0"
    and bm: "get_volume_bitmap os volume_handle total_clusters
               (snd (log_examining lcn_start lcn_end w)) = (Inr (volume_bitmap, bitmap_size), w1)"
    and ce: "check_extents [(lcn_start, lcn_end)] volume_bitmap None =
               Inr (count_free, count_allocated, a)"
  shows "examine os volume_handle lcn_start lcn_end cluster_size total_clusters w =
           (Inr (if count_allocated > 0 \<and> count_free = 0 then AllAllocated
                 else if count_allocated > 0 \<or>
                         (lcn_end - lcn_start + 1) * cluster_size > WRITE_BUF_SIZE * 4
                 then Subdivide else WholeFree), w1)"
proof -
  obtain w0 where l: "log_examining lcn_start lcn_end w = (Inr (), w0)"
    by (simp add: log_examining_def os_call_def)
  with bm have "get_volume_bitmap os volume_handle total_clusters w0 =
      (Inr (volume_bitmap, bitmap_size), w1)" by simp
  with cs l ce show ?thesis
    by (simp add: examine_def io_bind_def io_assert_def io_return_def Let_def)
qed

text \<open>
  C7. \<open>wipe_extent_by_defrag\<close> is defined by well-founded recursion on
  \<open>lcn_end - lcn_start\<close> (the termination proof above), so it returns for every extent and
  every behaviour of the operating system. For an extent with \<open>lcn_start \<le> lcn_end\<close>, a
  positive cluster size and a volume bitmap that could be read: when every cluster of
  the extent is allocated it returns \<open>False\<close> (not wiped); otherwise, when some cluster is
  allocated or the extent is longer than \<open>4 * WRITE_BUF_SIZE\<close> bytes, it returns \<open>False\<close>
  if \<open>lcn_start \<ge> lcn_end\<close> and else applies itself to each sub-extent of \<open>split_extent\<close>
  in turn and returns \<open>True\<close>; and every such sub-extent lies within the extent and, when
  \<open>lcn_start < lcn_end\<close>, is strictly shorter than it, so the recursion bottoms out.
\<close>

theorem wipe_extent_by_defrag_cases:
  assumes se: "lcn_start \<le> lcn_end"
    and cs: "cluster_size > 0"
    and bm: "get_volume_bitmap os volume_handle total_clusters
               (snd (log_examining lcn_start lcn_end w)) = (Inr (volume_bitmap, bitmap_size), w1)"
  shows "((\<forall>c \<in> {lcn_start .. lcn_end}. check_mapped_bit volume_bitmap c = Inr True) \<longrightarrow>
            wipe_extent_by_defrag os volume_handle lcn_start lcn_end cluster_size total_clusters
              tmp_file_path w = (Inr False, w1)) \<and>
         (\<forall>count_free count_allocated a.
            check_extents [(lcn_start, lcn_end)] volume_bitmap None =
              Inr (count_free, count_allocated, a) \<and>
            \<not> (count_allocated > 0 \<and> count_free = 0) \<and>
            (count_allocated > 0 \<or> (lcn_end - lcn_start + 1) * cluster_size > 4 * WRITE_BUF_SIZE)
            \<longrightarrow>
            wipe_extent_by_defrag os volume_handle lcn_start lcn_end cluster_size total_clusters
              tmp_file_path w =
              (if lcn_start \<ge> lcn_end then (Inr False, w1)
               else (case io_foreach (split_extent lcn_start lcn_end)
                            (\<lambda>x. wipe_extent_by_defrag os volume_handle (fst x) (snd x)
                                   cluster_size total_clusters tmp_file_path) w1 of
                       (Inl e, w2) \<Rightarrow> (Inl e, w2)
                     | (Inr _, w2) \<Rightarrow> (Inr True, w2)))) \<and>
         (\<forall>x \<in> set (split_extent lcn_start lcn_end).
            lcn_start \<le> fst x \<and> fst x \<le> snd x \<and> snd x \<le> lcn_end \<and>
            (lcn_start < lcn_end \<longrightarrow> snd x - fst x < lcn_end - lcn_start))"
proof (intro conjI allI impI ballI)
  assume all: "\<forall>c \<in> {lcn_start .. lcn_end}. check_mapped_bit volume_bitmap c = Inr True"
  from check_extents_all_allocated [OF all]
  have ce: "check_extents [(lcn_start, lcn_end)] volume_bitmap None =
      Inr (0, int (length [lcn_start .. lcn_end]), None)" .
  from se have "0 < int (length [lcn_start .. lcn_end])" by simp
  with examine_unfold [OF cs bm ce]
  have "examine os volume_handle lcn_start lcn_end cluster_size total_clusters w =
      (Inr AllAllocated, w1)" by simp
  then show "wipe_extent_by_defrag os volume_handle lcn_start lcn_end cluster_size total_clusters
      tmp_file_path w = (Inr False, w1)"
    by (simp add: wipe_extent_by_defrag.simps
        [of os volume_handle lcn_start lcn_end cluster_size total_clusters tmp_file_path w])
next
  fix count_free count_allocated a
  assume h: "check_extents [(lcn_start, lcn_end)] volume_bitmap None =
              Inr (count_free, count_allocated, a) \<and>
            \<not> (count_allocated > 0 \<and> count_free = 0) \<and>
            (count_allocated > 0 \<or> (lcn_end - lcn_start + 1) * cluster_size > 4 * WRITE_BUF_SIZE)"
  then have ce: "check_extents [(lcn_start, lcn_end)] volume_bitmap None =
              Inr (count_free, count_allocated, a)" by simp
  from examine_unfold [OF cs bm ce] h
  have "examine os volume_handle lcn_start lcn_end cluster_size total_clusters w =
      (Inr Subdivide, w1)" by auto
  then show "wipe_extent_by_defrag os volume_handle lcn_start lcn_end cluster_size total_clusters
              tmp_file_path w =
              (if lcn_start \<ge> lcn_end then (Inr False, w1)
               else (case io_foreach (split_extent lcn_start lcn_end)
                            (\<lambda>x. wipe_extent_by_defrag os volume_handle (fst x) (snd x)
                                   cluster_size total_clusters tmp_file_path) w1 of
                       (Inl e, w2) \<Rightarrow> (Inl e, w2)
                     | (Inr _, w2) \<Rightarrow> (Inr True, w2)))"
    by (simp add: wipe_extent_by_defrag.simps
        [of os volume_handle lcn_start lcn_end cluster_size total_clusters tmp_file_path w])
next
  fix x assume x: "x \<in> set (split_extent lcn_start lcn_end)"
  let ?sz = "(10::int) ^ find_exponent (lcn_end - lcn_start + 1) 0"
  have sz: "0 < ?sz" by simp
  from x have p: "x \<in> set (pieces lcn_start lcn_end ?sz)" by (simp add: split_extent_pieces)
  from pieces_fst_ge [OF sz p] show "lcn_start \<le> fst x" .
  from pieces_lengths [OF sz p] show le: "fst x \<le> snd x" by (simp add: extent_length_def)
  have "{fst x .. snd x} \<subseteq> clusters (pieces lcn_start lcn_end ?sz)"
    using p by (auto simp: clusters_def)
  with pieces_clusters [OF sz, of lcn_start lcn_end] le
  show "snd x \<le> lcn_end" by auto
  assume "lcn_start < lcn_end"
  then show "snd x - fst x < lcn_end - lcn_start" using x by (rule split_extent_smaller)
qed

theorem wipe_extent_by_defrag_cases_witness:
  "(0::int) \<le> 1 \<and> (0::int) < 4096 \<and>
   fst (wipe_extent_by_defrag (sim_win True [3]) 3 0 1 4096 2000 ''C:t'' sim_win_w0) = Inr False \<and>
   wipe_extent_by_defrag (sim_win True [1]) 3 0 1 4096 2000 ''C:t'' sim_win_w0 =
     (case io_foreach (split_extent 0 1)
             (\<lambda>x. wipe_extent_by_defrag (sim_win True [1]) 3 (fst x) (snd x) 4096 2000 ''C:t'')
             \<lparr>os_state = 0,
              trace = [Call (P_log_examining 0 1) (Some 0),
                       Call (P_GetVolumeBitmap 3 2000) (Some 0)]\<rparr> of
        (Inl e, w2) \<Rightarrow> (Inl e, w2)
      | (Inr _, w2) \<Rightarrow> (Inr True, w2))"
proof -
  let ?w1 = "\<lparr>os_state = 0::nat,
              trace = [Call (P_log_examining 0 1) (Some 0),
                       Call (P_GetVolumeBitmap 3 2000) (Some 0)]\<rparr>"
  have le: "(0::int) \<le> 1" by simp
  have cs: "(0::int) < 4096" by simp
  have bm: "get_volume_bitmap (sim_win True bitmap) 3 2000 (snd (log_examining 0 1 sim_win_w0))
      = (Inr (bitmap, 2000), ?w1)" for bitmap
    by (simp add: get_volume_bitmap_def log_examining_def os_call_def io_bind_def io_assert_def
        io_return_def sim_win_def sim_win_w0_def)
  have set01: "{0 .. 1::int} = {0, 1}" by auto
  have all: "\<forall>c \<in> {0 .. 1::int}. check_mapped_bit [3] c = Inr True"
    unfolding set01 by (simp add: check_mapped_bit_def py_index_def)
  have ce: "check_extents [(0, 1)] [1] None = Inr (1, 1, None)"
    by (simp add: check_extents_def check_mapped_bit_def py_index_def upto.simps)
  note t3 = wipe_extent_by_defrag_cases [OF le cs bm [of "[3]"], of "''C:t''"]
  note t1 = wipe_extent_by_defrag_cases [OF le cs bm [of "[1]"], of "''C:t''"]
  from t3 all have "wipe_extent_by_defrag (sim_win True [3]) 3 0 1 4096 2000 ''C:t'' sim_win_w0
      = (Inr False, ?w1)" by blast
  moreover from t1 ce have "wipe_extent_by_defrag (sim_win True [1]) 3 0 1 4096 2000 ''C:t'' sim_win_w0 =
     (case io_foreach (split_extent 0 1)
             (\<lambda>x. wipe_extent_by_defrag (sim_win True [1]) 3 (fst x) (snd x) 4096 2000 ''C:t'') ?w1 of
        (Inl e, w2) \<Rightarrow> (Inl e, w2)
      | (Inr _, w2) \<Rightarrow> (Inr True, w2))"
    by simp
  ultimately show ?thesis by simp
qed

end
